theory Spec2Isabelle
  imports Complex_Main
begin

section \<open>JavaScript values\<close>

text \<open>
  The GPU route (\<^verbatim>\<open>ui/src/app/api/gpu/route.ts\<close>) is written over values of type
  \<^verbatim>\<open>any\<close>: the result of \<^verbatim>\<open>JSON.parse\<close>, \<^verbatim>\<open>undefined\<close> for a missing property, and
  numbers that may be \<^verbatim>\<open>NaN\<close> or infinite.  A number is modelled by its exact decimal value
  (a rational), \<^verbatim>\<open>NaN\<close>, or one of the two infinities.  Overflow beyond the largest
  double is modelled (\<open>js_number\<close>).  Rounding to 53 bits is not, and neither is underflow:
  a value too small for a double, which the code reads as 0, keeps its exact value here, as
  does an integer beyond \<open>2^53\<close>.  Negative zero is identified with zero: both are falsy,
  both print as \<^verbatim>\<open>0\<close>, and the code never divides by either.  Strings are lists of
  8-bit characters.
\<close>

datatype jsnum = NaN | PInf | NInf | Fin rat

datatype jsval =
    Undefined
  | Null
  | Bool bool
  | Num jsnum
  | Str string
  | Arr "jsval list"
  | Obj "(string \<times> jsval) list"

text \<open>
  An object is the list of its own properties; \<open>map_of\<close> reads the first entry of a key.
  Exceptions are values: a \<^verbatim>\<open>TypeError\<close> of the engine or the rejection of a child process,
  each with its message.
\<close>

datatype error = TypeError string | ExecError string

definition ebind :: "'x + 'a \<Rightarrow> ('a \<Rightarrow> 'x + 'b) \<Rightarrow> 'x + 'b" where
  "ebind m f = (case m of Inl e \<Rightarrow> Inl e | Inr x \<Rightarrow> f x)"

text \<open>\<^verbatim>\<open>Array.prototype.map\<close> with a callback that may throw: the first exception ends the map.\<close>

fun all_results :: "('x + 'a) list \<Rightarrow> 'x + 'a list" where
  "all_results [] = Inr []"
| "all_results (r # rs) =
     (case r of
        Inl e \<Rightarrow> Inl e
      | Inr x \<Rightarrow> (case all_results rs of Inl e \<Rightarrow> Inl e | Inr xs \<Rightarrow> Inr (x # xs)))"

section \<open>Strings\<close>

text \<open>
  White space and line terminators below code unit 256, as \<^verbatim>\<open>String.prototype.trim\<close>,
  \<^verbatim>\<open>parseInt\<close> and \<^verbatim>\<open>parseFloat\<close> skip them.
\<close>

definition is_ws :: "char \<Rightarrow> bool" where
  "is_ws c = (c \<in> set [CHR 0x09, CHR 0x0A, CHR 0x0B, CHR 0x0C, CHR 0x0D, CHR 0x20, CHR 0xA0])"

definition trim :: "string \<Rightarrow> string" where
  "trim s = rev (dropWhile is_ws (rev (dropWhile is_ws s)))"

text \<open>
  \<^verbatim>\<open>String.prototype.split\<close> with a string separator: the pieces between the occurrences of
  the separator, found from the left; the empty string splits into one empty piece.
\<close>

function split_str :: "string \<Rightarrow> string \<Rightarrow> string list" where
  "split_str sep s =
     (if sep = [] then map (\<lambda>c. [c]) s
      else if s = [] then [[]]
      else if take (length sep) s = sep then [] # split_str sep (drop (length sep) s)
      else (case split_str sep (tl s) of
              [] \<Rightarrow> [[hd s]]
            | w # ws \<Rightarrow> (hd s # w) # ws))"
  by pat_completeness auto
termination
  by (relation "measure (\<lambda>(sep, s). length s)") auto

definition join_str :: "string \<Rightarrow> string list \<Rightarrow> string" where
  "join_str sep ws = (case ws of [] \<Rightarrow> [] | w # rest \<Rightarrow> w @ concat (map (\<lambda>v. sep @ v) rest))"

section \<open>Numbers and their text\<close>

text \<open>
  A real value as a double: at or beyond \<open>2^1024 - 2^970\<close> round-to-nearest gives an
  infinity.  Below that bound the value is kept as it is, with neither rounding nor
  underflow to 0.
\<close>

definition max_double_bound :: rat where
  "max_double_bound = 2 ^ 1024 - 2 ^ 970"

definition js_number :: "rat \<Rightarrow> jsnum" where
  "js_number q =
     (if max_double_bound \<le> q then PInf
      else if q \<le> - max_double_bound then NInf
      else Fin q)"

definition is_integer :: "rat \<Rightarrow> bool" where
  "is_integer q = (q = of_int \<lfloor>q\<rfloor>)"

definition digit_val :: "char \<Rightarrow> nat" where
  "digit_val c =
     (let n = (of_char c :: nat) in
      if 48 \<le> n \<and> n \<le> 57 then n - 48
      else if 97 \<le> n \<and> n \<le> 122 then n - 87
      else if 65 \<le> n \<and> n \<le> 90 then n - 55
      else 36)"

definition is_digit :: "nat \<Rightarrow> char \<Rightarrow> bool" where
  "is_digit R c = (digit_val c < R)"

definition digits_value :: "nat \<Rightarrow> string \<Rightarrow> nat" where
  "digits_value R ds = foldl (\<lambda>a c. a * R + digit_val c) 0 ds"

text \<open>
  \<^verbatim>\<open>parseInt(string, radix)\<close> on a string, radix \<open>0\<close> standing for an absent radix: skip
  white space, read a sign, strip \<^verbatim>\<open>0x\<close> when the radix allows, read the longest run of digits;
  \<^verbatim>\<open>NaN\<close> when there is none.
\<close>

definition parseInt_str :: "string \<Rightarrow> nat \<Rightarrow> jsnum" where
  "parseInt_str inputString radix =
     (let S = dropWhile is_ws inputString;
          sign = (if take 1 S = ''-'' then - 1 else (1 :: rat));
          S = (if take 1 S = ''+'' \<or> take 1 S = ''-'' then drop 1 S else S);
          stripPrefix = (radix = 0 \<or> radix = 16);
          R = (if radix = 0 then 10 else radix)
      in if R < 2 \<or> 36 < R then NaN
         else
           let hex = (stripPrefix \<and> (take 2 S = ''0x'' \<or> take 2 S = ''0X''));
               S = (if hex then drop 2 S else S);
               R = (if hex then 16 else R);
               Z = takeWhile (is_digit R) S
           in if Z = [] then NaN
              else js_number (sign * of_nat (digits_value R Z)))"

text \<open>
  \<^verbatim>\<open>parseFloat(string)\<close> on a string: skip white space, then the longest prefix that is a
  decimal literal (sign, \<^verbatim>\<open>Infinity\<close> or digits with an optional fraction and exponent);
  \<^verbatim>\<open>NaN\<close> when there is none.
\<close>

definition parseFloat_str :: "string \<Rightarrow> jsnum" where
  "parseFloat_str inputString =
     (let S = dropWhile is_ws inputString;
          sign = (if take 1 S = ''-'' then - 1 else (1 :: rat));
          S = (if take 1 S = ''+'' \<or> take 1 S = ''-'' then drop 1 S else S)
      in if take 8 S = ''Infinity'' then (if sign < 0 then NInf else PInf)
         else
           let ip = takeWhile (is_digit 10) S;
               r1 = dropWhile (is_digit 10) S;
               fp = (if take 1 r1 = ''.'' then takeWhile (is_digit 10) (drop 1 r1) else []);
               r2 = (if take 1 r1 = ''.'' then dropWhile (is_digit 10) (drop 1 r1) else r1)
           in if ip = [] \<and> fp = [] then NaN
              else
                let r3 = drop 1 r2;
                    esign = (if take 1 r3 = ''-'' then - 1 else (1 :: int));
                    r4 = (if take 1 r3 = ''+'' \<or> take 1 r3 = ''-'' then drop 1 r3 else r3);
                    ed = (if take 1 r2 = ''e'' \<or> take 1 r2 = ''E''
                          then takeWhile (is_digit 10) r4 else []);
                    e = esign * int (digits_value 10 ed);
                    m = of_nat (digits_value 10 ip)
                        + of_nat (digits_value 10 fp) / 10 ^ length fp
                in js_number (sign * m * (if 0 \<le> e then 10 ^ nat e else 1 / 10 ^ nat (- e))))"

text \<open>
  \<^verbatim>\<open>Number::toString\<close> in radix 10: with \<open>s\<close> the significant digits, \<open>k\<close> their count and
  \<open>n\<close> the position of the decimal point, plain digits for \<open>k \<le> n \<le> 21\<close>, a decimal point
  inside for \<open>0 < n \<le> 21\<close>, leading zeros for \<open>-6 < n \<le> 0\<close>, exponent notation otherwise.
  A value with no finite decimal expansion (no double is one) is cut after as many places
  as its denominator.
\<close>

definition digit_char :: "nat \<Rightarrow> char" where
  "digit_char d = ''0123456789'' ! d"

function nat_digits :: "nat \<Rightarrow> string" where
  "nat_digits n = (if n < 10 then [digit_char n] else nat_digits (n div 10) @ [digit_char (n mod 10)])"
  by pat_completeness auto
termination
  by (relation "measure id") auto

fun frac_places :: "nat \<Rightarrow> rat \<Rightarrow> nat" where
  "frac_places 0 q = 0"
| "frac_places (Suc fuel) q = (if is_integer q then 0 else Suc (frac_places fuel (q * 10)))"

function strip_zeros :: "nat \<Rightarrow> nat \<times> nat" where
  "strip_zeros m =
     (if m = 0 \<or> m mod 10 \<noteq> 0 then (m, 0)
      else (case strip_zeros (m div 10) of (s, z) \<Rightarrow> (s, Suc z)))"
  by pat_completeness auto
termination
  by (relation "measure id") auto

definition positive_to_string :: "rat \<Rightarrow> string" where
  "positive_to_string q =
     (let f = frac_places (nat (snd (quotient_of q))) q;
          (s, z) = strip_zeros (nat \<lfloor>q * 10 ^ f\<rfloor>);
          ds = nat_digits s;
          k = int (length ds);
          n = k + int z - int f
      in if k \<le> n \<and> n \<le> 21 then ds @ replicate (nat (n - k)) CHR ''0''
         else if 0 < n \<and> n \<le> 21 then take (nat n) ds @ ''.'' @ drop (nat n) ds
         else if - 6 < n \<and> n \<le> 0 then ''0.'' @ replicate (nat (- n)) CHR ''0'' @ ds
         else (if k = 1 then ds else take 1 ds @ ''.'' @ drop 1 ds)
              @ ''e'' @ (if 0 \<le> n - 1 then ''+'' else ''-'') @ nat_digits (nat \<bar>n - 1\<bar>))"

definition number_to_string :: "jsnum \<Rightarrow> string" where
  "number_to_string x =
     (case x of
        NaN \<Rightarrow> ''NaN''
      | PInf \<Rightarrow> ''Infinity''
      | NInf \<Rightarrow> ''-Infinity''
      | Fin q \<Rightarrow>
          if q = 0 then ''0''
          else if q < 0 then ''-'' @ positive_to_string (- q)
          else positive_to_string q)"

section \<open>Conversions and operators\<close>

text \<open>
  \<^verbatim>\<open>ToString\<close>, which \<^verbatim>\<open>parseInt\<close>, \<^verbatim>\<open>parseFloat\<close> and \<^verbatim>\<open>String\<close> apply to their argument.
  An array joins its elements with commas, \<^verbatim>\<open>null\<close> and \<^verbatim>\<open>undefined\<close> printing as nothing.
  An object of \<^verbatim>\<open>JSON.parse\<close> prints as \<^verbatim>\<open>[object Object]\<close> through the inherited method;
  an own property named \<^verbatim>\<open>toString\<close> hides that method and, being no function, leaves the
  conversion with a \<^verbatim>\<open>TypeError\<close>.
\<close>

fun to_string :: "jsval \<Rightarrow> error + string" where
  "to_string Undefined = Inr ''undefined''"
| "to_string Null = Inr ''null''"
| "to_string (Bool b) = Inr (if b then ''true'' else ''false'')"
| "to_string (Num x) = Inr (number_to_string x)"
| "to_string (Str s) = Inr s"
| "to_string (Arr xs) =
     ebind (all_results (map (\<lambda>x. if x = Undefined \<or> x = Null then Inr [] else to_string x) xs))
       (\<lambda>ws. Inr (join_str '','' ws))"
| "to_string (Obj kvs) =
     (if map_of kvs ''toString'' = None then Inr ''[object Object]''
      else Inl (TypeError ''Cannot convert object to primitive value''))"

definition truthy_num :: "jsnum \<Rightarrow> bool" where
  "truthy_num x = (x \<noteq> NaN \<and> x \<noteq> Fin 0)"

fun truthy :: "jsval \<Rightarrow> bool" where
  "truthy Undefined = False"
| "truthy Null = False"
| "truthy (Bool b) = b"
| "truthy (Num x) = truthy_num x"
| "truthy (Str s) = (s \<noteq> [])"
| "truthy (Arr xs) = True"
| "truthy (Obj kvs) = True"

text \<open>\<^verbatim>\<open>a || b\<close>, on values and on numbers, and \<^verbatim>\<open>a ?? b\<close>.\<close>

definition js_or :: "jsval \<Rightarrow> jsval \<Rightarrow> jsval" where
  "js_or a b = (if truthy a then a else b)"

definition num_or :: "jsnum \<Rightarrow> jsnum \<Rightarrow> jsnum" where
  "num_or a b = (if truthy_num a then a else b)"

definition nullish :: "jsval \<Rightarrow> bool" where
  "nullish v = (v = Undefined \<or> v = Null)"

definition js_nc :: "jsval \<Rightarrow> jsval \<Rightarrow> jsval" where
  "js_nc a b = (if nullish a then b else a)"

text \<open>
  Reading a property.  The names the route reads (\<^verbatim>\<open>gpu\<close>, \<^verbatim>\<open>gpu_data\<close>, \<^verbatim>\<open>asic\<close>,
  \<^verbatim>\<open>value\<close>, ...) are no built-in property of an array, string, number or boolean, so on
  those the result is \<^verbatim>\<open>undefined\<close>; on \<^verbatim>\<open>null\<close> and \<^verbatim>\<open>undefined\<close> plain access \<^verbatim>\<open>v.k\<close>
  throws and optional access \<^verbatim>\<open>v?.k\<close> gives \<^verbatim>\<open>undefined\<close>.
\<close>

fun own_prop :: "jsval \<Rightarrow> string \<Rightarrow> jsval" where
  "own_prop (Obj kvs) k = (case map_of kvs k of None \<Rightarrow> Undefined | Some x \<Rightarrow> x)"
| "own_prop v k = Undefined"

definition cannot_read :: "jsval \<Rightarrow> string \<Rightarrow> error" where
  "cannot_read v k =
     TypeError (''Cannot read properties of '' @ (if v = Null then ''null'' else ''undefined'')
                @ '' (reading '' @ [CHR 0x27] @ k @ [CHR 0x27] @ '')'')"

definition get :: "jsval \<Rightarrow> string \<Rightarrow> error + jsval" where
  "get v k = (if nullish v then Inl (cannot_read v k) else Inr (own_prop v k))"

definition opt_get :: "jsval \<Rightarrow> string \<Rightarrow> jsval" where
  "opt_get v k = (if nullish v then Undefined else own_prop v k)"

text \<open>The access path \<^verbatim>\<open>v.k?.k1?.k2\<close>: one plain access, then optional ones.\<close>

definition chain :: "jsval \<Rightarrow> string \<Rightarrow> string list \<Rightarrow> error + jsval" where
  "chain v k ks = ebind (get v k) (\<lambda>x. Inr (foldl opt_get x ks))"

text \<open>
  \<^verbatim>\<open>xs[i]\<close> on an array with a number as index: the element when \<open>i\<close> is an integer
  position of the array, \<^verbatim>\<open>undefined\<close> otherwise (also for \<^verbatim>\<open>NaN\<close> and negative numbers).
\<close>

definition array_at :: "jsval list \<Rightarrow> jsnum \<Rightarrow> jsval" where
  "array_at xs i =
     (case i of
        Fin q \<Rightarrow> if is_integer q \<and> 0 \<le> q \<and> q < of_nat (length xs) then xs ! nat \<lfloor>q\<rfloor> else Undefined
      | _ \<Rightarrow> Undefined)"

definition isArray :: "jsval \<Rightarrow> bool" where
  "isArray v = (case v of Arr xs \<Rightarrow> True | _ \<Rightarrow> False)"

definition elements :: "jsval \<Rightarrow> jsval list" where
  "elements v = (case v of Arr xs \<Rightarrow> xs | _ \<Rightarrow> [])"

text \<open>Comparison, division and multiplication of numbers, as IEEE 754 has them on the special values.\<close>

fun num_gt :: "jsnum \<Rightarrow> jsnum \<Rightarrow> bool" where
  "num_gt (Fin a) (Fin b) = (b < a)"
| "num_gt PInf (Fin b) = True"
| "num_gt PInf NInf = True"
| "num_gt (Fin a) NInf = True"
| "num_gt _ _ = False"

fun num_ge :: "jsnum \<Rightarrow> jsnum \<Rightarrow> bool" where
  "num_ge (Fin a) (Fin b) = (b \<le> a)"
| "num_ge PInf (Fin b) = True"
| "num_ge PInf PInf = True"
| "num_ge NInf NInf = True"
| "num_ge PInf NInf = True"
| "num_ge (Fin a) NInf = True"
| "num_ge _ _ = False"

fun num_div :: "jsnum \<Rightarrow> jsnum \<Rightarrow> jsnum" where
  "num_div (Fin a) (Fin b) =
     (if b = 0 then (if a = 0 then NaN else if 0 < a then PInf else NInf) else js_number (a / b))"
| "num_div (Fin a) PInf = Fin 0"
| "num_div (Fin a) NInf = Fin 0"
| "num_div PInf (Fin b) = (if 0 \<le> b then PInf else NInf)"
| "num_div NInf (Fin b) = (if 0 \<le> b then NInf else PInf)"
| "num_div _ _ = NaN"

fun num_mul :: "jsnum \<Rightarrow> jsnum \<Rightarrow> jsnum" where
  "num_mul (Fin a) (Fin b) = js_number (a * b)"
| "num_mul PInf (Fin b) = (if b = 0 then NaN else if 0 < b then PInf else NInf)"
| "num_mul NInf (Fin b) = (if b = 0 then NaN else if 0 < b then NInf else PInf)"
| "num_mul (Fin a) PInf = (if a = 0 then NaN else if 0 < a then PInf else NInf)"
| "num_mul (Fin a) NInf = (if a = 0 then NaN else if 0 < a then NInf else PInf)"
| "num_mul PInf PInf = PInf"
| "num_mul NInf NInf = PInf"
| "num_mul PInf NInf = NInf"
| "num_mul NInf PInf = NInf"
| "num_mul _ _ = NaN"

definition isFinite :: "jsnum \<Rightarrow> bool" where
  "isFinite x = (case x of Fin q \<Rightarrow> True | _ \<Rightarrow> False)"

definition parseInt :: "jsval \<Rightarrow> nat \<Rightarrow> error + jsnum" where
  "parseInt v radix = ebind (to_string v) (\<lambda>s. Inr (parseInt_str s radix))"

definition parseFloat :: "jsval \<Rightarrow> error + jsnum" where
  "parseFloat v = ebind (to_string v) (\<lambda>s. Inr (parseFloat_str s))"

section \<open>The numeric parse utilities\<close>

text \<open>
  \<^verbatim>\<open>route.ts\<close>, lines 9 to 15:
  \<^verbatim>\<open>function amdParseInt(value: any): number { return parseInt(value || 0); }\<close> and
  \<^verbatim>\<open>function amdParseFloat(value: any): number { return parseFloat(value || 0); }\<close>
\<close>

definition amdParseInt :: "jsval \<Rightarrow> error + jsnum" where
  "amdParseInt v = parseInt (js_or v (Num (Fin 0))) 0"

definition amdParseFloat :: "jsval \<Rightarrow> error + jsnum" where
  "amdParseFloat v = parseFloat (js_or v (Num (Fin 0)))"

text \<open>
  The variant of the same two utilities in the repository's other revision of the route
  (lines 9 to 17 there):
  \<^verbatim>\<open>const n = parseInt(String(value ?? '0'), 10); return Number.isFinite(n) ? n : 0;\<close>
\<close>

definition amdParseInt_guarded :: "jsval \<Rightarrow> error + jsnum" where
  "amdParseInt_guarded v =
     ebind (to_string (js_nc v (Str ''0''))) (\<lambda>s.
       let n = parseInt_str s 10 in Inr (if isFinite n then n else Fin 0))"

definition amdParseFloat_guarded :: "jsval \<Rightarrow> error + jsnum" where
  "amdParseFloat_guarded v =
     ebind (to_string (js_nc v (Str ''0''))) (\<lambda>s.
       let n = parseFloat_str s in Inr (if isFinite n then n else Fin 0))"

section \<open>Device records\<close>

text \<open>
  The record both adapters return; the nested objects \<^verbatim>\<open>utilization\<close>, \<^verbatim>\<open>memory\<close>,
  \<^verbatim>\<open>power\<close>, \<^verbatim>\<open>clocks\<close> and \<^verbatim>\<open>fan\<close> are flattened into prefixed fields.
\<close>

record gpu =
  index :: jsnum
  name :: jsval
  driverVersion :: jsval
  temperature :: jsnum
  utilization_gpu :: jsnum
  utilization_memory :: jsnum
  memory_total :: jsnum
  memory_free :: jsnum
  memory_used :: jsnum
  power_draw :: jsnum
  power_limit :: jsnum
  clocks_graphics :: jsnum
  clocks_memory :: jsnum
  fan_speed :: jsnum

section \<open>The NVIDIA adapter\<close>

text \<open>
  \<^verbatim>\<open>getGpuStats\<close>, lines 94 to 112: each line of the trimmed output is split on
  \<^verbatim>\<open>', '\<close>, each piece trimmed, and the first fourteen pieces are destructured; a missing
  piece is \<^verbatim>\<open>undefined\<close>.  Only the fan speed has \<^verbatim>\<open>|| 0\<close>.
\<close>

definition field :: "string list \<Rightarrow> nat \<Rightarrow> jsval" where
  "field fs k = (if k < length fs then Str (fs ! k) else Undefined)"

definition gpu_of_line :: "string \<Rightarrow> error + gpu" where
  "gpu_of_line line =
     (let fs = map trim (split_str '', '' line) in
      ebind (parseInt (field fs 0) 0) (\<lambda>idx.
      ebind (parseInt (field fs 3) 0) (\<lambda>temp.
      ebind (parseInt (field fs 4) 0) (\<lambda>gpuUtil.
      ebind (parseInt (field fs 5) 0) (\<lambda>memoryUtil.
      ebind (parseInt (field fs 6) 0) (\<lambda>memoryTotal.
      ebind (parseInt (field fs 7) 0) (\<lambda>memoryFree.
      ebind (parseInt (field fs 8) 0) (\<lambda>memoryUsed.
      ebind (parseFloat (field fs 9)) (\<lambda>powerDraw.
      ebind (parseFloat (field fs 10)) (\<lambda>powerLimit.
      ebind (parseInt (field fs 11) 0) (\<lambda>clockGraphics.
      ebind (parseInt (field fs 12) 0) (\<lambda>clockMemory.
      ebind (parseInt (field fs 13) 0) (\<lambda>fanSpeed.
      Inr \<lparr> index = idx, name = field fs 1, driverVersion = field fs 2,
            temperature = temp,
            utilization_gpu = gpuUtil, utilization_memory = memoryUtil,
            memory_total = memoryTotal, memory_free = memoryFree, memory_used = memoryUsed,
            power_draw = powerDraw, power_limit = powerLimit,
            clocks_graphics = clockGraphics, clocks_memory = clockMemory,
            fan_speed = num_or fanSpeed (Fin 0) \<rparr>)))))))))))))"

definition parse_gpu_lines :: "string \<Rightarrow> error + gpu list" where
  "parse_gpu_lines stdout = all_results (map gpu_of_line (split_str [CHR 0x0A] (trim stdout)))"

section \<open>The AMD adapter\<close>

text \<open>
  \<^verbatim>\<open>getAMDGpuStats\<close>, lines 137 to 165: the callback of \<^verbatim>\<open>staticGpus.map\<close>, with \<open>d\<close> the
  static record and \<open>idx\<close> its position.  \<^verbatim>\<open>d.gpu\<close>, \<^verbatim>\<open>d.asic\<close>, \<^verbatim>\<open>d.driver\<close> and
  \<^verbatim>\<open>d.limit\<close> are plain accesses; \<^verbatim>\<open>metricGpus[i] || {}\<close> is the metric record.
\<close>

definition amd_gpu :: "jsval list \<Rightarrow> jsval \<Rightarrow> nat \<Rightarrow> error + gpu" where
  "amd_gpu metricGpus d idx =
     ebind (get d ''gpu'') (\<lambda>g.
     ebind (amdParseInt (js_or g (Num (Fin (of_nat idx))))) (\<lambda>i.
     let gpu_data = js_or (array_at metricGpus i) (Obj []) in
     ebind (chain gpu_data ''mem_usage'' [''total_vram'', ''value'']) (\<lambda>v.
     ebind (amdParseFloat (js_or v (Num (Fin 0)))) (\<lambda>mem_total.
     ebind (chain gpu_data ''mem_usage'' [''used_vram'', ''value'']) (\<lambda>v.
     ebind (amdParseFloat (js_or v (Num (Fin 0)))) (\<lambda>mem_used.
     ebind (chain gpu_data ''mem_usage'' [''free_visible_vram'', ''value'']) (\<lambda>v.
     ebind (amdParseFloat (js_or v (Num (Fin 0)))) (\<lambda>mem_free.
     let mem_util = (if num_gt mem_total (Fin 0)
                     then num_mul (num_div mem_used mem_total) (Fin 100) else Fin 0) in
     ebind (chain d ''asic'' [''market_name'']) (\<lambda>market_name.
     ebind (chain d ''driver'' [''version'']) (\<lambda>version.
     ebind (chain gpu_data ''temperature'' [''hotspot'', ''value'']) (\<lambda>v.
     ebind (amdParseInt (js_or v (Num (Fin 0)))) (\<lambda>temp.
     ebind (chain gpu_data ''usage'' [''gfx_activity'', ''value'']) (\<lambda>v.
     ebind (amdParseInt (js_or v (Num (Fin 0)))) (\<lambda>gfx.
     ebind (chain gpu_data ''power'' [''socket_power'', ''value'']) (\<lambda>v.
     ebind (amdParseFloat (js_or v (Num (Fin 0)))) (\<lambda>draw.
     ebind (chain d ''limit'' [''max_power'', ''value'']) (\<lambda>v.
     ebind (amdParseFloat (js_or v (Num (Fin 0)))) (\<lambda>lim.
     ebind (chain gpu_data ''clock'' [''gfx_0'', ''clk'', ''value'']) (\<lambda>v.
     ebind (amdParseInt (js_or v (Num (Fin 0)))) (\<lambda>gclk.
     ebind (chain gpu_data ''clock'' [''mem_0'', ''clk'', ''value'']) (\<lambda>v.
     ebind (amdParseInt (js_or v (Num (Fin 0)))) (\<lambda>mclk.
     ebind (chain gpu_data ''fan'' [''usage'', ''value'']) (\<lambda>v.
     ebind (amdParseFloat (js_or v (Num (Fin 0)))) (\<lambda>fan.
     Inr \<lparr> index = i,
           name = js_or market_name (Str ''AMD GPU''),
           driverVersion = js_or version (Str ''N/A''),
           temperature = temp,
           utilization_gpu = gfx, utilization_memory = mem_util,
           memory_total = mem_total, memory_free = mem_free, memory_used = mem_used,
           power_draw = draw, power_limit = lim,
           clocks_graphics = gclk, clocks_memory = mclk,
           fan_speed = fan \<rparr>))))))))))))))))))))))))"

text \<open>
  Lines 134 and 135:
  \<^verbatim>\<open>Array.isArray(sdata.gpu_data) ? sdata.gpu_data : (Array.isArray(sdata) ? sdata : [])\<close>.
  The access \<^verbatim>\<open>sdata.gpu_data\<close> is a plain one.
\<close>

definition gpu_list :: "jsval \<Rightarrow> error + jsval list" where
  "gpu_list data =
     ebind (get data ''gpu_data'') (\<lambda>g.
       Inr (if isArray g then elements g else if isArray data then elements data else []))"

text \<open>
  Lines 134 to 166 on the two parsed values: normalise both, map the static records with
  their positions, keep the records whose index is not \<^verbatim>\<open>undefined\<close>.
\<close>

definition amd_gpus :: "jsval \<Rightarrow> jsval \<Rightarrow> error + gpu list" where
  "amd_gpus sdata mdata =
     ebind (gpu_list sdata) (\<lambda>staticGpus.
     ebind (gpu_list mdata) (\<lambda>metricGpus.
     ebind (all_results (map (\<lambda>(idx, d). amd_gpu metricGpus d idx) (enumerate 0 staticGpus))) (\<lambda>gs.
     Inr (filter (\<lambda>g. Num (index g) \<noteq> Undefined) gs))))"

section \<open>Child processes and the host\<close>

text \<open>
  A command line of the route is a simple command, an \<^verbatim>\<open>echo\<close>, or two command lines joined
  by \<^verbatim>\<open>&&\<close> or \<^verbatim>\<open>||\<close>.  The host says what each simple command does: fail with some
  text on its error stream (\<open>Inl\<close>), or print its output (\<open>Inr\<close>).  \<^verbatim>\<open>a && b\<close> fails as soon
  as one of the two fails; \<^verbatim>\<open>a || b\<close> runs \<open>b\<close> only when \<open>a\<close> failed.
\<close>

datatype command =
    Simple string
  | Echo string
  | AndThen command command
  | OrElse command command

fun command_text :: "command \<Rightarrow> string" where
  "command_text (Simple c) = c"
| "command_text (Echo s) = ''echo '' @ [CHR 0x22] @ s @ [CHR 0x22]"
| "command_text (AndThen a b) = command_text a @ '' && '' @ command_text b"
| "command_text (OrElse a b) = command_text a @ '' || '' @ command_text b"

fun sh :: "(string \<Rightarrow> string + string) \<Rightarrow> command \<Rightarrow> string + string" where
  "sh run (Simple c) = run c"
| "sh run (Echo s) = Inr (s @ [CHR 0x0A])"
| "sh run (AndThen a b) = ebind (sh run a) (\<lambda>out. ebind (sh run b) (\<lambda>out'. Inr (out @ out')))"
| "sh run (OrElse a b) = (case sh run a of Inr out \<Rightarrow> Inr out | Inl err \<Rightarrow> sh run b)"

record cpu_data =
  manufacturer :: string
  brand :: string
  cores :: jsnum
  speed :: jsnum
  temp :: jsval

record cpu_stats =
  cpu_name :: string
  cpu_cores :: jsnum
  cpu_speed :: jsnum
  cpu_temperature :: jsval

text \<open>
  What a request observes of its host: \<^verbatim>\<open>os.platform()\<close>, the outcome of each simple
  command, \<^verbatim>\<open>JSON.parse\<close> (\<open>None\<close> when it throws) and \<^verbatim>\<open>systeminformation.cpu()\<close>.
\<close>

record world =
  platform :: string
  run :: "string \<Rightarrow> string + string"
  JSON_parse :: "string \<Rightarrow> jsval option"
  cpu_info :: "error + cpu_data"

text \<open>
  The promisified \<^verbatim>\<open>exec\<close>: the output of a command line that succeeds; for one that fails,
  the rejection with the message Node gives it, \<^verbatim>\<open>Command failed: \<close> followed by the command
  line, a line break and the error stream.
\<close>

definition exec_error :: "command \<Rightarrow> string \<Rightarrow> error" where
  "exec_error c err = ExecError (''Command failed: '' @ command_text c @ ''\<newline>'' @ err)"

definition execAsync :: "world \<Rightarrow> command \<Rightarrow> error + string" where
  "execAsync w c = (case sh (run w) c of Inl err \<Rightarrow> Inl (exec_error c err) | Inr out \<Rightarrow> Inr out)"

definition checkNvidiaSmi :: "world \<Rightarrow> bool \<Rightarrow> bool" where
  "checkNvidiaSmi w isWindows =
     (case (if isWindows then execAsync w (Simple ''nvidia-smi -L'')
            else execAsync w (Simple ''which nvidia-smi'')) of
        Inr out \<Rightarrow> True
      | Inl e \<Rightarrow> False)"

definition checkAmdSmi :: "world \<Rightarrow> bool \<Rightarrow> bool" where
  "checkAmdSmi w isWindows =
     (case execAsync w (if isWindows then Simple ''amd-smi --help''
                        else OrElse (Simple ''which rocm-smi'') (Simple ''which amd-smi'')) of
        Inr out \<Rightarrow> True
      | Inl e \<Rightarrow> False)"

definition nvidia_query :: command where
  "nvidia_query = Simple (''nvidia-smi --query-gpu=index,name,driver_version,temperature.gpu,''
     @ ''utilization.gpu,utilization.memory,memory.total,memory.free,memory.used,power.draw,''
     @ ''power.limit,clocks.current.graphics,clocks.current.memory,fan.speed''
     @ '' --format=csv,noheader,nounits'')"

definition getGpuStats :: "world \<Rightarrow> bool \<Rightarrow> error + gpu list" where
  "getGpuStats w isWindows = ebind (execAsync w nvidia_query) parse_gpu_lines"

text \<open>
  Line 116: one command line,
  \<^verbatim>\<open>rocm-smi static --json && echo ";" && rocm-smi metric --json\<close>.
\<close>

definition amd_query :: command where
  "amd_query =
     AndThen (Simple ''rocm-smi static --json'')
       (AndThen (Echo '';'') (Simple ''rocm-smi metric --json''))"

definition getAMDGpuStats :: "world \<Rightarrow> bool \<Rightarrow> error + gpu list" where
  "getAMDGpuStats w isWindows =
     ebind (execAsync w amd_query) (\<lambda>stdout.
       let data = split_str '';'' (trim stdout) in
       if length data < 2 then Inr []
       else
         (case JSON_parse w (data ! 0) of
            None \<Rightarrow> Inr []
          | Some sdata \<Rightarrow>
              (case JSON_parse w (data ! 1) of
                 None \<Rightarrow> Inr []
               | Some mdata \<Rightarrow> amd_gpus sdata mdata)))"

text \<open>\<^verbatim>\<open>getCpuStats\<close>: \<open>None\<close> is the \<^verbatim>\<open>null\<close> of the catch branch.\<close>

definition getCpuStats :: "world \<Rightarrow> cpu_stats option" where
  "getCpuStats w =
     (case cpu_info w of
        Inl e \<Rightarrow> None
      | Inr cpuData \<Rightarrow>
          Some \<lparr> cpu_name = manufacturer cpuData @ '' '' @ brand cpuData,
                 cpu_cores = cores cpuData,
                 cpu_speed = speed cpuData,
                 cpu_temperature = js_or (temp cpuData) (Num (Fin 0)) \<rparr>)"

section \<open>The request handler\<close>

text \<open>
  The body of the response and its status.  \<open>cpu\<close> is \<open>None\<close> when the body has no such
  key, \<open>Some None\<close> when it is \<^verbatim>\<open>null\<close>.
\<close>

record envelope =
  hasNvidiaSmi :: bool
  hasAmdSmi :: bool
  gpus :: "gpu list"
  cpu :: "cpu_stats option option"
  error_message :: "string option"
  status :: nat

fun message :: "error \<Rightarrow> string" where
  "message (TypeError m) = m"
| "message (ExecError m) = m"

definition failure_envelope :: "error \<Rightarrow> envelope" where
  "failure_envelope e =
     \<lparr> hasNvidiaSmi = False, hasAmdSmi = False, gpus = [], cpu = None,
       error_message = Some (''Failed to fetch GPU stats: '' @ message e), status = 500 \<rparr>"

definition GET :: "world \<Rightarrow> envelope" where
  "GET w =
     (let isWindows = (platform w = ''win32'') in
      case
        (if checkNvidiaSmi w isWindows then
           ebind (getGpuStats w isWindows) (\<lambda>gpuStats.
             Inr \<lparr> hasNvidiaSmi = True, hasAmdSmi = False, gpus = gpuStats, cpu = None,
                   error_message = None, status = 200 \<rparr>)
         else if checkAmdSmi w isWindows then
           ebind (getAMDGpuStats w isWindows) (\<lambda>gpuStats.
             Inr \<lparr> hasNvidiaSmi = False, hasAmdSmi = True, gpus = gpuStats, cpu = None,
                   error_message = None, status = 200 \<rparr>)
         else
           Inr \<lparr> hasNvidiaSmi = False, hasAmdSmi = False, gpus = [],
                 cpu = Some (getCpuStats w), error_message = None, status = 200 \<rparr>)
      of
        Inr response \<Rightarrow> response
      | Inl e \<Rightarrow> failure_envelope e)"

section \<open>Notions used in the statements\<close>

text \<open>
  A value is \<open>plain\<close> when no object inside it has a member named \<^verbatim>\<open>toString\<close>: those are
  the values \<^verbatim>\<open>ToString\<close> accepts.
\<close>

fun plain :: "jsval \<Rightarrow> bool" where
  "plain (Arr xs) = list_all plain xs"
| "plain (Obj kvs) = (map_of kvs ''toString'' = None \<and> list_all plain (map snd kvs))"
| "plain v = True"

text \<open>Every field an AMD record takes from the metric record is zero.\<close>

definition telemetry_zeroed :: "gpu \<Rightarrow> bool" where
  "telemetry_zeroed g =
     (temperature g = Fin 0 \<and> utilization_gpu g = Fin 0 \<and> utilization_memory g = Fin 0 \<and>
      memory_total g = Fin 0 \<and> memory_used g = Fin 0 \<and> memory_free g = Fin 0 \<and>
      power_draw g = Fin 0 \<and> clocks_graphics g = Fin 0 \<and> clocks_memory g = Fin 0 \<and>
      fan_speed g = Fin 0)"


text \<open>
  The index a device index field stands for, where it stands for one: the position of the
  record when the field is missing or falsy, the integer when it is an integer number, the
  number written when it is a string of one to fifteen decimal digits, with or without a
  minus sign before them.
\<close>

definition decimal_text :: "string \<Rightarrow> bool" where
  "decimal_text ds = (ds \<noteq> [] \<and> length ds \<le> 15 \<and> list_all (is_digit 10) ds)"

definition resolved_index :: "jsval \<Rightarrow> nat \<Rightarrow> int option" where
  "resolved_index v k =
     (if \<not> truthy v then Some (int k)
      else
        (case v of
           Num (Fin q) \<Rightarrow> if is_integer q \<and> \<bar>q\<bar> < 10 ^ 21 then Some \<lfloor>q\<rfloor> else None
         | Str s \<Rightarrow>
             if decimal_text s then Some (int (digits_value 10 s))
             else if take 1 s = ''-'' \<and> decimal_text (drop 1 s)
             then Some (- int (digits_value 10 (drop 1 s)))
             else None
         | _ \<Rightarrow> None))"

subsection \<open>Example hosts\<close>

definition not_found :: "string \<Rightarrow> string + string" where
  "not_found c = Inl (''sh: '' @ c @ '': not found\<newline>'')"

definition json_literals :: "string \<Rightarrow> jsval option" where
  "json_literals s =
     (let t = trim s in
      if t = ''null'' then Some Null
      else if t = ''[]'' then Some (Arr [])
      else if t = ''[{}]'' then Some (Arr [Obj []])
      else None)"

definition ryzen :: cpu_data where
  "ryzen = \<lparr> manufacturer = ''AMD'', brand = ''Ryzen 9'', cores = Fin 16, speed = Fin (17 / 5),
             temp = Undefined \<rparr>"

text \<open>A host with \<^verbatim>\<open>nvidia-smi\<close>, whose query has the given outcome.\<close>

definition nvidia_host :: "string + string \<Rightarrow> world" where
  "nvidia_host out =
     \<lparr> platform = ''linux'',
       run = (\<lambda>c. if c = ''which nvidia-smi'' then Inr ''/usr/bin/nvidia-smi''
                  else if Simple c = nvidia_query then out
                  else not_found c),
       JSON_parse = json_literals,
       cpu_info = Inr ryzen \<rparr>"

text \<open>A host with \<^verbatim>\<open>rocm-smi\<close> only, whose static and metric queries have the given outcomes.\<close>

definition amd_host :: "string + string \<Rightarrow> string + string \<Rightarrow> world" where
  "amd_host static metric =
     \<lparr> platform = ''linux'',
       run = (\<lambda>c. if c = ''which rocm-smi'' then Inr ''/usr/bin/rocm-smi''
                  else if c = ''rocm-smi static --json'' then static
                  else if c = ''rocm-smi metric --json'' then metric
                  else not_found c),
       JSON_parse = json_literals,
       cpu_info = Inr ryzen \<rparr>"

text \<open>A host with neither tool.\<close>

definition bare_host :: world where
  "bare_host =
     \<lparr> platform = ''linux'', run = not_found, JSON_parse = json_literals, cpu_info = Inr ryzen \<rparr>"

section \<open>Lemmas\<close>

declare split_str.simps [simp del] nat_digits.simps [simp del] strip_zeros.simps [simp del]

lemma ebind_Inr [simp]: "ebind (Inr x) f = f x"
  by (simp add: ebind_def)

lemma ebind_Inl [simp]: "ebind (Inl e) f = Inl e"
  by (simp add: ebind_def)

lemma ebind_eq_Inr: "ebind m f = Inr y \<longleftrightarrow> (\<exists>x. m = Inr x \<and> f x = Inr y)"
  by (cases m) simp_all

lemma all_results_map:
  "(\<And>x. x \<in> set xs \<Longrightarrow> f x = Inr (g x)) \<Longrightarrow> all_results (map f xs) = Inr (map g xs)"
  by (induction xs) simp_all

lemma all_results_Inr:
  "all_results ms = Inr xs \<Longrightarrow> length xs = length ms \<and> (\<forall>k<length ms. ms ! k = Inr (xs ! k))"
proof (induction ms arbitrary: xs)
  case Nil
  then show ?case by simp
next
  case (Cons m ms)
  from Cons.prems obtain y ys where m: "m = Inr y" and ys: "all_results ms = Inr ys" and xs: "xs = y # ys"
    by (auto split: sum.splits)
  from Cons.IH [OF ys] show ?case
    by (auto simp: m xs nth_Cons split: nat.splits)
qed

lemma plain_own_prop: "plain v \<Longrightarrow> plain (own_prop v k)"
proof (cases v)
  case (Obj kvs)
  assume "plain v"
  then have all: "list_all plain (map snd kvs)" by (simp add: Obj)
  show ?thesis
  proof (cases "map_of kvs k")
    case None
    then show ?thesis by (simp add: Obj)
  next
    case (Some x)
    then have "x \<in> set (map snd kvs)" by (force dest: map_of_SomeD)
    with all have "plain x" by (auto simp: list_all_iff)
    then show ?thesis by (simp add: Obj Some)
  qed
qed simp_all

lemma plain_opt_get: "plain v \<Longrightarrow> plain (opt_get v k)"
  by (simp add: opt_get_def plain_own_prop)

lemma plain_foldl_opt_get: "plain v \<Longrightarrow> plain (foldl opt_get v ks)"
  by (induction ks arbitrary: v) (simp_all add: plain_opt_get)

lemma plain_js_or: "plain a \<Longrightarrow> plain b \<Longrightarrow> plain (js_or a b)"
  by (simp add: js_or_def)

lemma nat_floor_less: "0 \<le> (q::rat) \<Longrightarrow> q < of_nat n \<Longrightarrow> nat \<lfloor>q\<rfloor> < n"
proof -
  assume q: "0 \<le> q" "q < of_nat n"
  then have "\<lfloor>q\<rfloor> < int n" by (simp add: floor_less_iff)
  moreover have "0 \<le> \<lfloor>q\<rfloor>" using q by simp
  ultimately show ?thesis by linarith
qed

lemma plain_array_at: "list_all plain xs \<Longrightarrow> plain (array_at xs i)"
  by (cases i) (auto simp: array_at_def list_all_length nat_floor_less)

lemma to_string_plain: "plain v \<Longrightarrow> \<exists>s. to_string v = Inr s"
proof (induction v rule: to_string.induct)
  case (6 xs)
  have "\<exists>ws. all_results (map (\<lambda>x. if x = Undefined \<or> x = Null then Inr [] else to_string x) xs) = Inr ws"
    using 6
  proof (induction xs)
    case Nil
    then show ?case by simp
  next
    case (Cons x xs)
    have "\<exists>s. (if x = Undefined \<or> x = Null then Inr [] else to_string x) = Inr s"
      using Cons.prems by auto
    moreover have "\<exists>ws. all_results (map (\<lambda>x. if x = Undefined \<or> x = Null then Inr [] else to_string x) xs) = Inr ws"
      using Cons by auto
    ultimately show ?case by auto
  qed
  then show ?case by auto
qed simp_all

lemmas parse_defs =
  parseInt_str_def parseFloat_str_def is_ws_def is_digit_def digit_val_def digits_value_def
  js_number_def max_double_bound_def

lemma get_not_nullish: "\<not> nullish v \<Longrightarrow> get v k = Inr (own_prop v k)"
  by (simp add: get_def)

lemma chain_not_nullish: "\<not> nullish v \<Longrightarrow> chain v k ks = Inr (foldl opt_get (own_prop v k) ks)"
  by (simp add: chain_def get_not_nullish)

lemma not_nullish_or_obj: "\<not> nullish (js_or v (Obj kvs))"
  by (cases v) (auto simp: js_or_def nullish_def)

lemma parseInt_plain: "plain v \<Longrightarrow> \<exists>n. parseInt v r = Inr n"
  using to_string_plain [of v] by (auto simp: parseInt_def)

lemma parseFloat_plain: "plain v \<Longrightarrow> \<exists>n. parseFloat v = Inr n"
  using to_string_plain [of v] by (auto simp: parseFloat_def)

lemma amdParseInt_plain: "plain v \<Longrightarrow> \<exists>n. amdParseInt v = Inr n"
  by (simp add: amdParseInt_def parseInt_plain plain_js_or)

lemma amdParseFloat_plain: "plain v \<Longrightarrow> \<exists>n. amdParseFloat v = Inr n"
  by (simp add: amdParseFloat_def parseFloat_plain plain_js_or)

lemma number_to_string_zero: "number_to_string (Fin 0) = ''0''"
  by (simp add: number_to_string_def)

lemma amdParseInt_zero: "amdParseInt (Num (Fin 0)) = Inr (Fin 0)"
  by (simp add: amdParseInt_def parseInt_def js_or_def truthy_num_def number_to_string_zero parse_defs)

lemma amdParseFloat_zero: "amdParseFloat (Num (Fin 0)) = Inr (Fin 0)"
  by (simp add: amdParseFloat_def parseFloat_def js_or_def truthy_num_def number_to_string_zero parse_defs)

lemma amdParseInt_leaf: "plain v \<Longrightarrow> \<exists>n. amdParseInt (js_or v (Num (Fin 0))) = Inr n"
  by (simp add: amdParseInt_plain plain_js_or)

lemma amdParseFloat_leaf: "plain v \<Longrightarrow> \<exists>n. amdParseFloat (js_or v (Num (Fin 0))) = Inr n"
  by (simp add: amdParseFloat_plain plain_js_or)

lemma opt_get_Undefined: "opt_get Undefined k = Undefined"
  by (simp add: opt_get_def)

lemma amd_gpu_result:
  assumes d: "\<not> nullish d" "plain d" and ms: "list_all plain ms"
  shows "\<exists>g. amd_gpu ms d k = Inr g
     \<and> amdParseInt (js_or (own_prop d ''gpu'') (Num (Fin (of_nat k)))) = Inr (index g)
     \<and> (array_at ms (index g) = Undefined \<longrightarrow> telemetry_zeroed g)
     \<and> name g = js_or (opt_get (own_prop d ''asic'') ''market_name'') (Str ''AMD GPU'')
     \<and> driverVersion g = js_or (opt_get (own_prop d ''driver'') ''version'') (Str ''N/A'')"
proof -
  obtain i where i: "amdParseInt (js_or (own_prop d ''gpu'') (Num (Fin (of_nat k)))) = Inr i"
    using amdParseInt_plain [OF plain_js_or [OF plain_own_prop [OF d(2)]]] by force
  define gd where "gd = js_or (array_at ms i) (Obj [])"
  have gd: "\<not> nullish gd" "plain gd"
    by (simp_all add: gd_def not_nullish_or_obj plain_js_or plain_array_at ms)
  have pg: "\<And>a b. plain (opt_get (opt_get (own_prop gd a) b) ''value'')"
    by (simp add: plain_opt_get plain_own_prop gd)
  have pg4: "\<And>a b c. plain (opt_get (opt_get (opt_get (own_prop gd a) b) c) ''value'')"
    by (simp add: plain_opt_get plain_own_prop gd)
  have pd: "\<And>a b. plain (opt_get (opt_get (own_prop d a) b) ''value'')"
    by (simp add: plain_opt_get plain_own_prop d)
  obtain mt where mt: "amdParseFloat (js_or (opt_get (opt_get (own_prop gd ''mem_usage'') ''total_vram'') ''value'') (Num (Fin 0))) = Inr mt"
    using amdParseFloat_leaf [OF pg] by blast
  obtain mu where mu: "amdParseFloat (js_or (opt_get (opt_get (own_prop gd ''mem_usage'') ''used_vram'') ''value'') (Num (Fin 0))) = Inr mu"
    using amdParseFloat_leaf [OF pg] by blast
  obtain mf where mf: "amdParseFloat (js_or (opt_get (opt_get (own_prop gd ''mem_usage'') ''free_visible_vram'') ''value'') (Num (Fin 0))) = Inr mf"
    using amdParseFloat_leaf [OF pg] by blast
  obtain te where te: "amdParseInt (js_or (opt_get (opt_get (own_prop gd ''temperature'') ''hotspot'') ''value'') (Num (Fin 0))) = Inr te"
    using amdParseInt_leaf [OF pg] by blast
  obtain gf where gf: "amdParseInt (js_or (opt_get (opt_get (own_prop gd ''usage'') ''gfx_activity'') ''value'') (Num (Fin 0))) = Inr gf"
    using amdParseInt_leaf [OF pg] by blast
  obtain dr where dr: "amdParseFloat (js_or (opt_get (opt_get (own_prop gd ''power'') ''socket_power'') ''value'') (Num (Fin 0))) = Inr dr"
    using amdParseFloat_leaf [OF pg] by blast
  obtain li where li: "amdParseFloat (js_or (opt_get (opt_get (own_prop d ''limit'') ''max_power'') ''value'') (Num (Fin 0))) = Inr li"
    using amdParseFloat_leaf [OF pd] by blast
  obtain gc where gc: "amdParseInt (js_or (opt_get (opt_get (opt_get (own_prop gd ''clock'') ''gfx_0'') ''clk'') ''value'') (Num (Fin 0))) = Inr gc"
    using amdParseInt_leaf [OF pg4] by blast
  obtain mc where mc: "amdParseInt (js_or (opt_get (opt_get (opt_get (own_prop gd ''clock'') ''mem_0'') ''clk'') ''value'') (Num (Fin 0))) = Inr mc"
    using amdParseInt_leaf [OF pg4] by blast
  obtain fa where fa: "amdParseFloat (js_or (opt_get (opt_get (own_prop gd ''fan'') ''usage'') ''value'') (Num (Fin 0))) = Inr fa"
    using amdParseFloat_leaf [OF pg] by blast
  note vals = mt mu mf te gf dr li gc mc fa
  define g where "g = \<lparr> index = i,
           name = js_or (opt_get (own_prop d ''asic'') ''market_name'') (Str ''AMD GPU''),
           driverVersion = js_or (opt_get (own_prop d ''driver'') ''version'') (Str ''N/A''),
           temperature = te,
           utilization_gpu = gf,
           utilization_memory = (if num_gt mt (Fin 0) then num_mul (num_div mu mt) (Fin 100) else Fin 0),
           memory_total = mt, memory_free = mf, memory_used = mu,
           power_draw = dr, power_limit = li,
           clocks_graphics = gc, clocks_memory = mc,
           fan_speed = fa \<rparr>"
  have res: "amd_gpu ms d k = Inr g"
    unfolding amd_gpu_def g_def
    by (simp add: get_not_nullish [OF d(1)] chain_not_nullish [OF d(1)] i Let_def
        gd_def [symmetric] chain_not_nullish [OF gd(1)] vals)
  have zero: "telemetry_zeroed g" if "array_at ms (index g) = Undefined"
  proof -
    from that have e: "gd = Obj []" by (simp add: g_def gd_def js_or_def)
    note ev = e opt_get_Undefined js_or_def amdParseInt_zero amdParseFloat_zero
    have "mt = Fin 0" using mt by (simp add: ev)
    moreover have "mu = Fin 0" using mu by (simp add: ev)
    moreover have "mf = Fin 0" using mf by (simp add: ev)
    moreover have "te = Fin 0" using te by (simp add: ev)
    moreover have "gf = Fin 0" using gf by (simp add: ev)
    moreover have "dr = Fin 0" using dr by (simp add: ev)
    moreover have "gc = Fin 0" using gc by (simp add: ev)
    moreover have "mc = Fin 0" using mc by (simp add: ev)
    moreover have "fa = Fin 0" using fa by (simp add: ev)
    ultimately show ?thesis by (simp add: telemetry_zeroed_def g_def)
  qed
  show ?thesis
    using res zero i by (intro exI [of _ g]) (simp add: g_def)
qed

lemma all_results_ok:
  "(\<And>m. m \<in> set ms \<Longrightarrow> \<exists>x. m = Inr x) \<Longrightarrow> \<exists>xs. all_results ms = Inr xs"
proof (induction ms)
  case Nil
  then show ?case by simp
next
  case (Cons m ms)
  then obtain x where "m = Inr x" by auto
  moreover obtain xs where "all_results ms = Inr xs" using Cons by auto
  ultimately show ?case by simp
qed

lemma array_at_out_of_range: "num_ge i (Fin (of_nat (length ms))) \<Longrightarrow> array_at ms i = Undefined"
  by (cases i) (auto simp: array_at_def)

lemma amd_gpus_result:
  assumes s: "gpu_list sdata = Inr statics" and m: "gpu_list mdata = Inr metrics"
    and ok: "list_all (\<lambda>d. \<not> nullish d \<and> plain d) statics" and pm: "list_all plain metrics"
  shows "\<exists>gs. amd_gpus sdata mdata = Inr gs \<and> length gs = length statics
     \<and> (\<forall>k<length statics. amd_gpu metrics (statics ! k) k = Inr (gs ! k))"
proof -
  let ?ms = "map (\<lambda>(idx, d). amd_gpu metrics d idx) (enumerate 0 statics)"
  have "\<exists>x. r = Inr x" if "r \<in> set ?ms" for r
  proof -
    from that obtain k d where kd: "(k, d) \<in> set (enumerate 0 statics)" and r: "r = amd_gpu metrics d k"
      by auto
    then have "d \<in> set statics" by (auto simp: in_set_enumerate_eq)
    with ok have "\<not> nullish d" "plain d" by (auto simp: list_all_iff)
    from amd_gpu_result [OF this pm, of k] show ?thesis by (auto simp: r)
  qed
  then obtain gs where gs: "all_results ?ms = Inr gs" using all_results_ok by blast
  from all_results_Inr [OF gs]
  have len: "length gs = length statics" and el: "\<forall>k<length statics. ?ms ! k = Inr (gs ! k)"
    by simp_all
  have "amd_gpus sdata mdata = Inr gs"
    by (simp add: amd_gpus_def s m gs)
  moreover have "\<forall>k<length statics. amd_gpu metrics (statics ! k) k = Inr (gs ! k)"
    using el by (simp add: nth_enumerate_eq)
  ultimately show ?thesis using len by blast
qed

lemma mem_util_value:
  assumes "0 \<le> u" "0 < t"
  shows "num_mul (num_div (Fin u) (Fin t)) (Fin 100) = js_number (u / t * 100)"
proof -
  define x where "x = u / t"
  have q: "0 \<le> x" using assms by (simp add: x_def)
  have M: "0 < max_double_bound" by (simp add: max_double_bound_def)
  show ?thesis
  proof (cases "max_double_bound \<le> x")
    case True
    then have "max_double_bound \<le> x * 100" using q by linarith
    with True show ?thesis using assms by (simp add: js_number_def x_def [symmetric])
  next
    case False
    moreover have "\<not> x \<le> - max_double_bound" using q M by linarith
    ultimately show ?thesis using assms by (simp add: js_number_def x_def [symmetric])
  qed
qed

lemma amd_gpu_mem_util:
  assumes "amd_gpu metricGpus d k = Inr g"
  shows "utilization_memory g =
     (if num_gt (memory_total g) (Fin 0)
      then num_mul (num_div (memory_used g) (memory_total g)) (Fin 100) else Fin 0)"
  using assms unfolding amd_gpu_def Let_def
  by (auto simp: ebind_eq_Inr)

lemma js_or_simps:
  "js_or Undefined b = b"
  "js_or Null b = b"
  "js_or (Bool c) b = (if c then Bool c else b)"
  "js_or (Num NaN) b = b"
  "js_or (Num PInf) b = Num PInf"
  "js_or (Num NInf) b = Num NInf"
  "js_or (Num (Fin q)) b = (if q = 0 then b else Num (Fin q))"
  "js_or (Str s) b = (if s = [] then b else Str s)"
  "js_or (Arr xs) b = Arr xs"
  "js_or (Obj kvs) b = Obj kvs"
  by (simp_all add: js_or_def truthy_num_def)

lemma get_simps:
  "get Undefined k = Inl (cannot_read Undefined k)"
  "get Null k = Inl (cannot_read Null k)"
  "get (Bool c) k = Inr Undefined"
  "get (Num n) k = Inr Undefined"
  "get (Str s) k = Inr Undefined"
  "get (Arr xs) k = Inr Undefined"
  "get (Obj kvs) k = Inr (own_prop (Obj kvs) k)"
  by (simp_all add: get_def nullish_def)

lemma opt_get_simps:
  "opt_get Undefined k = Undefined"
  "opt_get Null k = Undefined"
  "opt_get (Bool c) k = Undefined"
  "opt_get (Num n) k = Undefined"
  "opt_get (Str s) k = Undefined"
  "opt_get (Arr xs) k = Undefined"
  "opt_get (Obj kvs) k = own_prop (Obj kvs) k"
  by (simp_all add: opt_get_def nullish_def)

lemma gpu_list_simps:
  "gpu_list (Arr xs) = Inr xs"
  "gpu_list (Obj kvs) =
     Inr (case own_prop (Obj kvs) ''gpu_data'' of Arr xs \<Rightarrow> xs | _ \<Rightarrow> [])"
  "gpu_list (Str s) = Inr []"
  "gpu_list (Num n) = Inr []"
  "gpu_list (Bool c) = Inr []"
  "gpu_list Null = Inl (cannot_read Null ''gpu_data'')"
  "gpu_list Undefined = Inl (cannot_read Undefined ''gpu_data'')"
  by (simp_all add: gpu_list_def get_simps isArray_def elements_def split: jsval.splits)

lemmas js_eval = js_or_simps get_simps opt_get_simps gpu_list_simps chain_def

lemma amdParseInt_Str_digit0: "amdParseInt (Str ''0'') = Inr (Fin 0)"
  by (simp add: amdParseInt_def parseInt_def js_or_simps parse_defs)

lemma array_at_Nil: "array_at [] i = Undefined"
  by (cases i) (auto simp: array_at_def)









lemma parseInt_Str: "parseInt (Str s) r = Inr (parseInt_str s r)"
  by (simp add: parseInt_def)

lemma parseFloat_Str: "parseFloat (Str s) = Inr (parseFloat_str s)"
  by (simp add: parseFloat_def)

lemma parseInt_Undefined: "parseInt Undefined 0 = Inr NaN"
  by (simp add: parseInt_def parse_defs)

lemma parseFloat_Undefined: "parseFloat Undefined = Inr NaN"
  by (simp add: parseFloat_def parse_defs)

lemma parseInt_empty: "parseInt_str [] 0 = NaN"
  by (simp add: parse_defs)




lemma trim_all_ws: "list_all is_ws s \<Longrightarrow> trim s = []"
proof -
  assume "list_all is_ws s"
  then have "dropWhile is_ws s = []" by (simp add: list_all_iff)
  then show ?thesis by (simp add: trim_def del: dropWhile_eq_Nil_conv)
qed

lemma gpu_of_line_empty:
  "gpu_of_line [] = Inr \<lparr> index = NaN, name = Undefined, driverVersion = Undefined,
       temperature = NaN, utilization_gpu = NaN, utilization_memory = NaN,
       memory_total = NaN, memory_free = NaN, memory_used = NaN,
       power_draw = NaN, power_limit = NaN, clocks_graphics = NaN, clocks_memory = NaN,
       fan_speed = Fin 0 \<rparr>"
  by (simp add: gpu_of_line_def split_str.simps trim_def field_def parseInt_Str parseInt_empty
      parseInt_Undefined parseFloat_Undefined num_or_def truthy_num_def)

lemma parse_blank:
  "list_all is_ws stdout \<Longrightarrow> parse_gpu_lines stdout = Inr [\<lparr> index = NaN, name = Undefined, driverVersion = Undefined,
       temperature = NaN, utilization_gpu = NaN, utilization_memory = NaN,
       memory_total = NaN, memory_free = NaN, memory_used = NaN,
       power_draw = NaN, power_limit = NaN, clocks_graphics = NaN, clocks_memory = NaN,
       fan_speed = Fin 0 \<rparr>]"
  by (simp add: parse_gpu_lines_def trim_all_ws split_str.simps gpu_of_line_empty)


lemma digit_char_props:
  assumes "d < 10"
  shows "digit_val (digit_char d) = d" and "is_digit 10 (digit_char d)" and "\<not> is_ws (digit_char d)"
    and "digit_char d \<noteq> CHR ''-''" and "digit_char d \<noteq> CHR ''+''" and "digit_char d \<noteq> CHR ''x''"
    and "digit_char d \<noteq> CHR ''X''" and "(digit_char d = CHR ''0'') = (d = 0)"
proof -
  from assms have "d \<in> {0, 1, 2, 3, 4, 5, 6, 7, 8, 9}" by auto
  then show "digit_val (digit_char d) = d" and "is_digit 10 (digit_char d)" and "\<not> is_ws (digit_char d)"
    and "digit_char d \<noteq> CHR ''-''" and "digit_char d \<noteq> CHR ''+''" and "digit_char d \<noteq> CHR ''x''"
    and "digit_char d \<noteq> CHR ''X''" and "(digit_char d = CHR ''0'') = (d = 0)"
    by (auto simp: digit_char_def digit_val_def is_digit_def is_ws_def)
qed

lemma is_digit_not_special:
  assumes "is_digit 10 c"
  shows "\<not> is_ws c" and "c \<noteq> CHR ''-''" and "c \<noteq> CHR ''+''" and "c \<noteq> CHR ''x''" and "c \<noteq> CHR ''X''"
  using assms by (auto simp: is_digit_def digit_val_def is_ws_def)

lemma nat_digits_digits: "list_all (is_digit 10) (nat_digits n)"
proof (induction n rule: nat_digits.induct)
  case (1 n)
  show ?case
  proof (cases "n < 10")
    case True
    then show ?thesis by (subst nat_digits.simps) (simp add: digit_char_props)
  next
    case False
    with 1 have "list_all (is_digit 10) (nat_digits (n div 10))" by simp
    moreover have "is_digit 10 (digit_char (n mod 10))" by (simp add: digit_char_props)
    ultimately show ?thesis using False by (subst nat_digits.simps) simp
  qed
qed

lemma nat_digits_nonempty: "nat_digits n \<noteq> []"
  by (subst nat_digits.simps) simp

lemma digits_value_snoc: "digits_value R (ds @ [c]) = digits_value R ds * R + digit_val c"
  by (simp add: digits_value_def)

lemma digits_value_nat_digits: "digits_value 10 (nat_digits n) = n"
proof (induction n rule: nat_digits.induct)
  case (1 n)
  show ?case
  proof (cases "n < 10")
    case True
    then show ?thesis by (subst nat_digits.simps) (simp add: digits_value_def digit_char_props)
  next
    case False
    with 1 have "digits_value 10 (nat_digits (n div 10)) = n div 10" by simp
    then show ?thesis using False
      by (subst nat_digits.simps) (simp add: digits_value_snoc digit_char_props)
  qed
qed

lemma digits_value_bound: "list_all (is_digit 10) ds \<Longrightarrow> digits_value 10 ds < 10 ^ length ds"
proof (induction ds rule: rev_induct)
  case Nil
  then show ?case by (simp add: digits_value_def)
next
  case (snoc c ds)
  then have "digits_value 10 ds < 10 ^ length ds" and "digit_val c < 10"
    by (simp_all add: is_digit_def)
  then have "digits_value 10 ds * 10 + digit_val c < 10 ^ length ds * 10" by linarith
  then show ?case by (simp add: digits_value_snoc mult.commute)
qed

lemma parseInt_str_digits:
  assumes "ds \<noteq> []" "list_all (is_digit 10) ds"
  shows "parseInt_str ds 0 = js_number (of_nat (digits_value 10 ds))"
proof -
  obtain c cs where ds: "ds = c # cs" using assms(1) by (cases ds) auto
  have c: "is_digit 10 c" using assms(2) by (simp add: ds)
  have dw: "dropWhile is_ws ds = ds" using is_digit_not_special(1) [OF c] by (simp add: ds)
  have t2: "take 2 ds \<noteq> ''0x''" "take 2 ds \<noteq> ''0X''"
  proof -
    show "take 2 ds \<noteq> ''0x''"
    proof
      assume "take 2 ds = ''0x''"
      then have "CHR ''x'' \<in> set ds" by (metis in_set_takeD list.set_intros(1) list.set_intros(2))
      with assms(2) have "is_digit 10 CHR ''x''" by (simp add: list_all_iff)
      then show False by (simp add: is_digit_def digit_val_def)
    qed
    show "take 2 ds \<noteq> ''0X''"
    proof
      assume "take 2 ds = ''0X''"
      then have "CHR ''X'' \<in> set ds" by (metis in_set_takeD list.set_intros(1) list.set_intros(2))
      with assms(2) have "is_digit 10 CHR ''X''" by (simp add: list_all_iff)
      then show False by (simp add: is_digit_def digit_val_def)
    qed
  qed
  have tw: "takeWhile (is_digit 10) ds = ds" using assms(2) by (simp add: list_all_iff)
  have t1: "take 1 ds \<noteq> ''-''" "take 1 ds \<noteq> ''+''"
    using is_digit_not_special [OF c] by (simp_all add: ds)
  show ?thesis
    unfolding parseInt_str_def dw Let_def
    using t1 t2 assms(1) by (simp add: tw del: takeWhile_eq_all_conv)
qed

lemma js_number_small: "\<bar>q\<bar> < 10 ^ 21 \<Longrightarrow> js_number q = Fin q"
proof -
  assume a: "\<bar>q\<bar> < 10 ^ 21"
  have "(10::rat) ^ 21 < max_double_bound" by (simp add: max_double_bound_def)
  with a have "q < max_double_bound" "- max_double_bound < q" by linarith+
  then show ?thesis by (simp add: js_number_def)
qed

lemma parseInt_str_nat_digits: "n < 10 ^ 21 \<Longrightarrow> parseInt_str (nat_digits n) 0 = Fin (of_nat n)"
proof -
  assume "n < 10 ^ 21"
  then have "\<bar>rat_of_nat n\<bar> < 10 ^ 21"
    by (metis abs_of_nat of_nat_less_iff of_nat_numeral of_nat_power)
  then show ?thesis
    by (simp add: parseInt_str_digits nat_digits_nonempty nat_digits_digits digits_value_nat_digits
        js_number_small)
qed

lemma strip_zeros_digits:
  "0 < m \<Longrightarrow> strip_zeros m = (s, z) \<Longrightarrow> nat_digits s @ replicate z CHR ''0'' = nat_digits m"
proof (induction m arbitrary: s z rule: strip_zeros.induct)
  case (1 m)
  show ?case
  proof (cases "m mod 10 \<noteq> 0")
    case True
    with "1.prems" show ?thesis by (subst (asm) strip_zeros.simps) auto
  next
    case False
    with "1.prems" have m10: "10 \<le> m" and pos: "0 < m div 10" by presburger+
    obtain s' z' where sz: "strip_zeros (m div 10) = (s', z')" by (cases "strip_zeros (m div 10)")
    from "1.prems"(2) False "1.prems"(1) sz have eq: "s = s'" "z = Suc z'"
      by (subst (asm) strip_zeros.simps; simp)+
    from "1.IH" [OF _ pos sz] False "1.prems"(1)
    have ih: "nat_digits s' @ replicate z' CHR ''0'' = nat_digits (m div 10)" by simp
    have "nat_digits m = nat_digits (m div 10) @ [digit_char (m mod 10)]"
      using m10 by (subst nat_digits.simps) simp
    also have "digit_char (m mod 10) = CHR ''0''" using False by (simp add: digit_char_def)
    finally show ?thesis
      by (simp add: eq ih [symmetric] replicate_append_same)
  qed
qed

lemma length_nat_digits: "n < 10 ^ d \<Longrightarrow> 0 < d \<Longrightarrow> length (nat_digits n) \<le> d"
proof (induction n arbitrary: d rule: nat_digits.induct)
  case (1 n)
  show ?case
  proof (cases "n < 10")
    case True
    with "1.prems" show ?thesis by (subst nat_digits.simps) simp
  next
    case False
    obtain d' where d: "d = Suc d'" using "1.prems"(2) by (cases d) auto
    have "0 < d'"
    proof (rule ccontr)
      assume "\<not> 0 < d'"
      then have "d = 1" by (simp add: d)
      with "1.prems"(1) False show False by simp
    qed
    moreover have "n div 10 < 10 ^ d'" using "1.prems"(1) by (simp add: d less_mult_imp_div_less mult.commute)
    ultimately have "length (nat_digits (n div 10)) \<le> d'" using "1.IH" False by simp
    then show ?thesis using False by (subst nat_digits.simps) (simp add: d)
  qed
qed

lemma positive_to_string_nat:
  assumes "0 < n" "n < 10 ^ 21"
  shows "positive_to_string (of_nat n) = nat_digits n"
proof -
  obtain s z where sz: "strip_zeros n = (s, z)" by (cases "strip_zeros n")
  have dig: "nat_digits s @ replicate z CHR ''0'' = nat_digits n"
    by (rule strip_zeros_digits [OF assms(1) sz])
  have "length (nat_digits n) \<le> 21" by (rule length_nat_digits [OF assms(2)]) simp
  with dig have len: "length (nat_digits s) + z \<le> 21" by (metis length_append length_replicate)
  have q: "quotient_of (rat_of_nat n) = (int n, 1)"
    by simp
  have int: "is_integer (rat_of_nat n)" by (simp add: is_integer_def)
  have fl: "nat \<lfloor>rat_of_nat n\<rfloor> = n" by simp
  show ?thesis
    unfolding positive_to_string_def q
    using len by (simp add: int fl sz dig)
qed

lemma number_to_string_nat: "n < 10 ^ 21 \<Longrightarrow> number_to_string (Fin (of_nat n)) = nat_digits n"
proof (cases "n = 0")
  case True
  then show ?thesis by (simp add: number_to_string_def nat_digits.simps digit_char_def)
next
  case False
  assume "n < 10 ^ 21"
  with False show ?thesis by (simp add: number_to_string_def positive_to_string_nat)
qed

lemma amdParseInt_position: "n < 10 ^ 21 \<Longrightarrow> amdParseInt (Num (Fin (of_nat n))) = Inr (Fin (of_nat n))"
proof (cases "n = 0")
  case True
  then show ?thesis by (simp add: amdParseInt_zero)
next
  case False
  assume "n < 10 ^ 21"
  with False show ?thesis
    by (simp add: amdParseInt_def parseInt_def js_or_simps number_to_string_nat parseInt_str_nat_digits)
qed

lemma amdParseInt_digits:
  assumes "ds \<noteq> []" "list_all (is_digit 10) ds" "length ds \<le> 15"
  shows "amdParseInt (Str ds) = Inr (Fin (of_nat (digits_value 10 ds)))"
proof -
  have "digits_value 10 ds < 10 ^ length ds" by (rule digits_value_bound [OF assms(2)])
  also have "(10::nat) ^ length ds \<le> 10 ^ 15" using assms(3) by (intro power_increasing) simp_all
  finally have "digits_value 10 ds < 10 ^ 21" by simp
  then have "\<bar>rat_of_nat (digits_value 10 ds)\<bar> < 10 ^ 21"
    by (metis abs_of_nat of_nat_less_iff of_nat_numeral of_nat_power)
  then show ?thesis
    using assms(1) by (simp add: amdParseInt_def parseInt_def js_or_simps parseInt_str_digits [OF assms(1,2)] js_number_small)
qed

lemma number_to_string_numeral:
  "numeral n < (10::nat) ^ 21 \<Longrightarrow> number_to_string (Fin (numeral n)) = nat_digits (numeral n)"
  using number_to_string_nat [of "numeral n"] by simp

lemmas digits_eval = nat_digits.simps digit_char_def


lemma parseInt_str_neg_digits:
  assumes "ds \<noteq> []" "list_all (is_digit 10) ds"
  shows "parseInt_str (CHR ''-'' # ds) 0 = js_number (- of_nat (digits_value 10 ds))"
proof -
  obtain c cs where ds: "ds = c # cs" using assms(1) by (cases ds) auto
  have c: "is_digit 10 c" using assms(2) by (simp add: ds)
  have t2: "take 2 ds \<noteq> ''0x''" "take 2 ds \<noteq> ''0X''"
  proof -
    show "take 2 ds \<noteq> ''0x''"
    proof
      assume "take 2 ds = ''0x''"
      then have "CHR ''x'' \<in> set ds" by (metis in_set_takeD list.set_intros(1) list.set_intros(2))
      with assms(2) have "is_digit 10 CHR ''x''" by (simp add: list_all_iff)
      then show False by (simp add: is_digit_def digit_val_def)
    qed
    show "take 2 ds \<noteq> ''0X''"
    proof
      assume "take 2 ds = ''0X''"
      then have "CHR ''X'' \<in> set ds" by (metis in_set_takeD list.set_intros(1) list.set_intros(2))
      with assms(2) have "is_digit 10 CHR ''X''" by (simp add: list_all_iff)
      then show False by (simp add: is_digit_def digit_val_def)
    qed
  qed
  have tw: "takeWhile (is_digit 10) ds = ds" using assms(2) by (simp add: list_all_iff)
  have ws: "\<not> is_ws CHR ''-''" by (simp add: is_ws_def)
  show ?thesis
    unfolding parseInt_str_def Let_def
    using t2 assms(1) ws by (simp add: tw del: takeWhile_eq_all_conv)
qed

lemma number_to_string_int:
  assumes "\<bar>z\<bar> < 10 ^ 21"
  shows "number_to_string (Fin (of_int z)) =
     (if z < 0 then CHR ''-'' # nat_digits (nat (- z)) else nat_digits (nat z))"
proof (cases "z < 0")
  case False
  have b: "nat z < 10 ^ 21" using assms False by (simp add: nat_less_iff)
  have "number_to_string (Fin (rat_of_int z)) = number_to_string (Fin (rat_of_nat (nat z)))"
    using False by simp
  also have "\<dots> = nat_digits (nat z)"
    by (rule number_to_string_nat [OF b])
  finally show ?thesis using False by simp
next
  case True
  have b: "nat (- z) < 10 ^ 21" using assms True by (simp add: nat_less_iff)
  have p: "0 < nat (- z)" using True by simp
  have neg: "rat_of_int z < 0" using True by simp
  have "number_to_string (Fin (rat_of_int z)) = CHR ''-'' # positive_to_string (- rat_of_int z)"
    using neg by (simp add: number_to_string_def)
  also have "- rat_of_int z = rat_of_nat (nat (- z))"
    using True by simp
  also have "positive_to_string (rat_of_nat (nat (- z))) = nat_digits (nat (- z))"
    by (rule positive_to_string_nat [OF p b])
  finally show ?thesis using True by simp
qed

lemma amdParseInt_int:
  assumes "\<bar>z\<bar> < 10 ^ 21"
  shows "amdParseInt (Num (Fin (of_int z))) = Inr (Fin (of_int z))"
proof (cases "z < 0")
  case False
  have b: "nat z < 10 ^ 21" using assms False by (simp add: nat_less_iff)
  have e: "rat_of_int z = rat_of_nat (nat z)" using False by simp
  show ?thesis
    unfolding e by (rule amdParseInt_position [OF b])
next
  case True
  have b: "nat (- z) < 10 ^ 21" using assms True by (simp add: nat_less_iff)
  then have "\<bar>- rat_of_nat (nat (- z))\<bar> < 10 ^ 21"
    by (metis abs_minus_cancel abs_of_nat of_nat_less_iff of_nat_numeral of_nat_power)
  then have n: "js_number (- rat_of_nat (nat (- z))) = Fin (- rat_of_nat (nat (- z)))"
    by (rule js_number_small)
  have e: "- rat_of_nat (nat (- z)) = rat_of_int z" using True by simp
  have nz: "rat_of_int z \<noteq> 0" using True by simp
  have t: "to_string (Num (Fin (rat_of_int z))) = Inr (CHR ''-'' # nat_digits (nat (- z)))"
    using number_to_string_int [OF assms] True by simp
  have "parseInt_str (CHR ''-'' # nat_digits (nat (- z))) 0 = js_number (- rat_of_nat (nat (- z)))"
    using parseInt_str_neg_digits [OF nat_digits_nonempty nat_digits_digits, of "nat (- z)"]
    by (simp only: digits_value_nat_digits)
  also have "\<dots> = Fin (- rat_of_nat (nat (- z)))" by (rule n)
  also have "\<dots> = Fin (rat_of_int z)" by (simp only: e)
  finally have p: "parseInt_str (CHR ''-'' # nat_digits (nat (- z))) 0 = Fin (rat_of_int z)" .
  have o: "js_or (Num (Fin (rat_of_int z))) (Num (Fin 0)) = Num (Fin (rat_of_int z))"
    using nz by (simp add: js_or_simps)
  show ?thesis
    unfolding amdParseInt_def parseInt_def o t by (simp add: p)
qed

lemma decimal_text_small: "decimal_text ds \<Longrightarrow> \<bar>rat_of_nat (digits_value 10 ds)\<bar> < 10 ^ 21"
proof -
  assume a: "decimal_text ds"
  then have "digits_value 10 ds < 10 ^ length ds" by (simp add: decimal_text_def digits_value_bound)
  also have "(10::nat) ^ length ds \<le> 10 ^ 15" using a by (intro power_increasing) (simp_all add: decimal_text_def)
  finally have "digits_value 10 ds < 10 ^ 21" by simp
  then show ?thesis
    by (metis abs_of_nat of_nat_less_iff of_nat_numeral of_nat_power)
qed

lemma amdParseInt_neg_digits:
  assumes "decimal_text ds"
  shows "amdParseInt (Str (CHR ''-'' # ds)) = Inr (Fin (- of_nat (digits_value 10 ds)))"
proof -
  from decimal_text_small [OF assms] have "\<bar>- rat_of_nat (digits_value 10 ds)\<bar> < 10 ^ 21" by simp
  then have "js_number (- rat_of_nat (digits_value 10 ds)) = Fin (- rat_of_nat (digits_value 10 ds))"
    by (rule js_number_small)
  then show ?thesis
    using assms
    by (simp add: amdParseInt_def parseInt_def js_or_simps parseInt_str_neg_digits decimal_text_def)
qed

lemma amdParseInt_resolved:
  assumes "resolved_index v k = Some z" "k < 2 ^ 32"
  shows "amdParseInt (js_or v (Num (Fin (of_nat k)))) = Inr (Fin (of_int z))"
proof (cases "truthy v")
  case False
  then have "z = int k" using assms(1) by (simp add: resolved_index_def)
  moreover have "k < 10 ^ 21" using assms(2) by simp
  ultimately show ?thesis using False amdParseInt_position [of k] by (simp add: js_or_def)
next
  case True
  then have or: "js_or v (Num (Fin (of_nat k))) = v" by (simp add: js_or_def)
  show ?thesis
  proof (cases v)
    case (Num n)
    with assms(1) True obtain q where q: "n = Fin q" "is_integer q" "\<bar>q\<bar> < 10 ^ 21" "z = \<lfloor>q\<rfloor>"
      by (auto simp: resolved_index_def split: jsnum.splits if_splits)
    then have qz: "q = of_int z" by (simp add: is_integer_def)
    then have "\<bar>z\<bar> < 10 ^ 21" using q(3)
      by (metis of_int_abs of_int_less_iff of_int_numeral of_int_power)
    from amdParseInt_int [OF this] show ?thesis unfolding or unfolding Num q(1) qz .
  next
    case (Str s)
    show ?thesis
    proof (cases "decimal_text s")
      case dt: True
      then have "z = int (digits_value 10 s)" using assms(1) True by (simp add: resolved_index_def Str)
      moreover have "amdParseInt (Str s) = Inr (Fin (of_nat (digits_value 10 s)))"
        using dt by (intro amdParseInt_digits) (simp_all add: decimal_text_def)
      ultimately show ?thesis unfolding or unfolding Str by simp
    next
      case nd: False
      with assms(1) True have m: "take 1 s = ''-''" and dt: "decimal_text (drop 1 s)"
        and z: "z = - int (digits_value 10 (drop 1 s))"
        by (auto simp: resolved_index_def Str split: if_splits)
      from m have s: "s = CHR ''-'' # drop 1 s" by (cases s) auto
      from amdParseInt_neg_digits [OF dt] have "amdParseInt (Str s) = Inr (Fin (- of_nat (digits_value 10 (drop 1 s))))"
        using s by simp
      then show ?thesis unfolding or unfolding Str z by simp
    qed
  qed (use assms(1) True in \<open>simp_all add: resolved_index_def\<close>)
qed


subsection \<open>The example hosts\<close>

lemma amd_query_text:
  "command_text amd_query =
     ''rocm-smi static --json && echo '' @ [CHR 0x22] @ '';'' @ [CHR 0x22] @ '' && rocm-smi metric --json''"
  by (simp add: amd_query_def)

lemma nvidia_host_query:
  "execAsync (nvidia_host out) nvidia_query =
     (case out of Inl err \<Rightarrow> Inl (exec_error nvidia_query err) | Inr stdout \<Rightarrow> Inr stdout)"
  by (cases out) (simp_all add: execAsync_def nvidia_host_def nvidia_query_def)

lemma nvidia_host_check: "checkNvidiaSmi (nvidia_host out) (platform (nvidia_host out) = ''win32'')"
  by (simp add: checkNvidiaSmi_def execAsync_def nvidia_host_def)

lemma amd_host_query:
  "execAsync (amd_host static metric) amd_query =
     (case static of
        Inl err \<Rightarrow> Inl (exec_error amd_query err)
      | Inr out \<Rightarrow>
          (case metric of
             Inl err \<Rightarrow> Inl (exec_error amd_query err)
           | Inr out' \<Rightarrow> Inr (out @ '';\<newline>'' @ out')))"
  by (cases static; cases metric) (simp_all add: execAsync_def amd_host_def amd_query_def)

lemma amd_host_parse: "JSON_parse (amd_host static metric) = json_literals"
  by (simp add: amd_host_def)

lemma amd_host_check:
  "\<not> checkNvidiaSmi (amd_host static metric) (platform (amd_host static metric) = ''win32'')"
  "checkAmdSmi (amd_host static metric) (platform (amd_host static metric) = ''win32'')"
  by (simp_all add: checkNvidiaSmi_def checkAmdSmi_def execAsync_def amd_host_def not_found_def)

lemma bare_host_check:
  "\<not> checkNvidiaSmi bare_host (platform bare_host = ''win32'')"
  "\<not> checkAmdSmi bare_host (platform bare_host = ''win32'')"
  by (simp_all add: checkNvidiaSmi_def checkAmdSmi_def execAsync_def bare_host_def not_found_def)

lemma amd_query_metric_fails:
  assumes "run w ''rocm-smi static --json'' = Inr out" and "run w ''rocm-smi metric --json'' = Inl err"
  shows "execAsync w amd_query = Inl (exec_error amd_query err)"
  using assms by (simp add: execAsync_def amd_query_def)

section \<open>The properties of the specification\<close>

text \<open>
  C1.  The specification states that joining a static sequence with a shorter metric
  sequence never raises, the records past the end of the metric sequence getting zeroed
  telemetry.  The callback reads \<^verbatim>\<open>d.gpu\<close> by a plain access, which throws on a static entry
  that is \<^verbatim>\<open>null\<close>: with the static sequence \<^verbatim>\<open>[{gpu:"0"}, null]\<close> and the metric sequence
  \<^verbatim>\<open>[]\<close>, in either top-level shape, the join raises a \<^verbatim>\<open>TypeError\<close> and returns no
  record.
\<close>

theorem null_static_record_raises:
  "amd_gpus (Arr [Obj [(''gpu'', Str ''0'')], Null]) (Arr [])
     = Inl (TypeError ''Cannot read properties of null (reading 'gpu')'')
   \<and> amd_gpu [] Null 1 = Inl (TypeError ''Cannot read properties of null (reading 'gpu')'')
   \<and> amd_gpus (Obj [(''gpu_data'', Arr [Obj [(''gpu'', Str ''0'')], Null])]) (Arr [])
     = Inl (TypeError ''Cannot read properties of null (reading 'gpu')'')"
  by (simp add: amd_gpus_def enumerate_eq_zip upt_rec amd_gpu_def js_eval array_at_Nil
      amdParseInt_Str_digit0 amdParseInt_zero amdParseFloat_zero cannot_read_def)

text \<open>
  C2.  The specification states that a top-level value that is neither an array nor an
  object holding one under \<^verbatim>\<open>gpu_data\<close> normalises to the empty sequence without raising.
  On \<^verbatim>\<open>null\<close>, which \<^verbatim>\<open>JSON.parse\<close> returns for the text \<^verbatim>\<open>null\<close>, the plain access
  \<^verbatim>\<open>sdata.gpu_data\<close> throws: the adapter raises and the request ends in the failure
  envelope.
\<close>

theorem null_shape_raises:
  "gpu_list Null = Inl (TypeError ''Cannot read properties of null (reading 'gpu_data')'')
   \<and> getAMDGpuStats (amd_host (Inr ''null\<newline>'') (Inr ''[]\<newline>'')) False
       = Inl (cannot_read Null ''gpu_data'')
   \<and> GET (amd_host (Inr ''null\<newline>'') (Inr ''[]\<newline>''))
       = failure_envelope (cannot_read Null ''gpu_data'')"
proof -
  let ?w = "amd_host (Inr ''null\<newline>'') (Inr ''[]\<newline>'')"
  have a: "getAMDGpuStats ?w isWindows = Inl (cannot_read Null ''gpu_data'')" for isWindows
    by (simp add: getAMDGpuStats_def amd_host_query amd_host_parse trim_def is_ws_def
        split_str.simps json_literals_def amd_gpus_def gpu_list_simps)
  have "GET ?w = failure_envelope (cannot_read Null ''gpu_data'')"
    using amd_host_check [of "Inr ''null\<newline>''" "Inr ''[]\<newline>''"]
    by (simp add: GET_def a)
  with a show ?thesis by (simp add: gpu_list_simps cannot_read_def)
qed

text \<open>
  C3.  The specification states that \<^verbatim>\<open>amdParseInt\<close> and \<^verbatim>\<open>amdParseFloat\<close> return a finite
  number on every input.  As the route defines them they return \<^verbatim>\<open>NaN\<close> on a string that
  is no number and an infinity on the text \<^verbatim>\<open>Infinity\<close>; the guarded variant returns 0 on
  both.
\<close>

theorem amdParseInt_not_finite:
  "amdParseInt (Str ''abc'') = Inr NaN \<and> amdParseFloat (Str ''abc'') = Inr NaN
   \<and> amdParseFloat (Str ''Infinity'') = Inr PInf
   \<and> amdParseInt_guarded (Str ''abc'') = Inr (Fin 0)
   \<and> amdParseFloat_guarded (Str ''Infinity'') = Inr (Fin 0)"
  by (simp add: amdParseInt_def amdParseFloat_def amdParseInt_guarded_def amdParseFloat_guarded_def
      parseInt_def parseFloat_def js_or_simps js_nc_def nullish_def isFinite_def parse_defs)

text \<open>
  C4.  The specification states that every returned record has a finite index that is not
  negative, by a parse that falls back to 0 and a filter that drops what did not resolve.
  The route checks no sign: a static record whose index field is \<^verbatim>\<open>"-1"\<close> is returned
  with the index \<open>-1\<close>.
\<close>

theorem negative_index_kept:
  "amd_gpus (Arr [Obj [(''gpu'', Str ''-1'')]]) (Arr []) =
     Inr [\<lparr> index = Fin (- 1), name = Str ''AMD GPU'', driverVersion = Str ''N/A'',
            temperature = Fin 0, utilization_gpu = Fin 0, utilization_memory = Fin 0,
            memory_total = Fin 0, memory_free = Fin 0, memory_used = Fin 0,
            power_draw = Fin 0, power_limit = Fin 0,
            clocks_graphics = Fin 0, clocks_memory = Fin 0, fan_speed = Fin 0 \<rparr>]"
proof -
  have i: "amdParseInt (Str ''-1'') = Inr (Fin (- 1))"
    by (simp add: amdParseInt_def parseInt_def js_or_simps parse_defs)
  show ?thesis
    by (simp add: amd_gpus_def enumerate_eq_zip amd_gpu_def js_eval array_at_Nil i
        amdParseInt_zero amdParseFloat_zero)
qed

text \<open>
  C4, as amended.  Take fewer than \<open>2^32\<close> static records (the bound on an array), none
  of them \<^verbatim>\<open>null\<close> or \<^verbatim>\<open>undefined\<close>, where no object of the static or of the metric
  sequence has a member named \<^verbatim>\<open>toString\<close>, and where the device index field of every
  static record is missing or falsy, an integer number of magnitude below \<open>10^21\<close>, or a
  string of one to fifteen decimal digits with or without a minus sign before them.  The
  adapter returns exactly one record for each static record, in order.  The index of a
  record is the position of its static record when the field is missing or falsy, and the
  integer the field holds otherwise: a finite number, negative when the field is.  No sign
  is checked and no such record is dropped.
\<close>

theorem amd_index_resolution:
  assumes "gpu_list sdata = Inr statics" and "gpu_list mdata = Inr metrics"
    and "list_all (\<lambda>d. \<not> nullish d \<and> plain d) statics" and "list_all plain metrics"
    and "length statics < 2 ^ 32"
    and "list_all (\<lambda>(k, d). resolved_index (own_prop d ''gpu'') k \<noteq> None) (enumerate 0 statics)"
  shows "\<exists>gs. amd_gpus sdata mdata = Inr gs \<and> length gs = length statics
     \<and> (\<forall>k<length statics. \<exists>z.
           resolved_index (own_prop (statics ! k) ''gpu'') k = Some z
           \<and> index (gs ! k) = Fin (of_int z))"
proof -
  from amd_gpus_result [OF assms(1-4)] obtain gs where gs: "amd_gpus sdata mdata = Inr gs"
    and len: "length gs = length statics"
    and el: "\<forall>k<length statics. amd_gpu metrics (statics ! k) k = Inr (gs ! k)"
    by blast
  have "\<exists>z. resolved_index (own_prop (statics ! k) ''gpu'') k = Some z
           \<and> index (gs ! k) = Fin (of_int z)" if k: "k < length statics" for k
  proof -
    from k assms(3) have d: "\<not> nullish (statics ! k)" "plain (statics ! k)"
      by (simp_all add: list_all_length)
    from amd_gpu_result [OF d assms(4), of k] el k
    have idx: "amdParseInt (js_or (own_prop (statics ! k) ''gpu'') (Num (Fin (of_nat k))))
      = Inr (index (gs ! k))" by auto
    from assms(6) k have "resolved_index (own_prop (statics ! k) ''gpu'') k \<noteq> None"
      by (simp add: list_all_length nth_enumerate_eq)
    then obtain z where z: "resolved_index (own_prop (statics ! k) ''gpu'') k = Some z" by auto
    have "k < 2 ^ 32" using k assms(5) by simp
    from amdParseInt_resolved [OF z this] idx have "index (gs ! k) = Fin (of_int z)" by simp
    with z show ?thesis by blast
  qed
  with gs len show ?thesis by blast
qed

theorem amd_index_resolution_witness:
  "\<exists>gs. amd_gpus
          (Arr [Obj [(''gpu'', Num (Fin 0))], Obj [(''gpu'', Num (Fin 1))], Obj [],
                Obj [(''gpu'', Str ''7'')]])
          (Arr []) = Inr gs
     \<and> length gs = 4 \<and> index (gs ! 0) = Fin 0 \<and> index (gs ! 1) = Fin 1
     \<and> index (gs ! 2) = Fin 2 \<and> index (gs ! 3) = Fin 7"
proof -
  let ?ds = "[Obj [(''gpu'', Num (Fin 0))], Obj [(''gpu'', Num (Fin 1))], Obj [],
                Obj [(''gpu'', Str ''7'')]]"
  have s: "gpu_list (Arr ?ds) = Inr ?ds" and m: "gpu_list (Arr []) = Inr []"
    by (simp_all add: gpu_list_simps)
  have ps: "list_all (\<lambda>d. \<not> nullish d \<and> plain d) ?ds"
    by (simp add: nullish_def)
  have pm: "list_all plain []"
    by simp
  have n: "length ?ds < 2 ^ 32"
    by simp
  have r: "resolved_index (own_prop (?ds ! 0) ''gpu'') 0 = Some 0"
    "resolved_index (own_prop (?ds ! 1) ''gpu'') 1 = Some 1"
    "resolved_index (own_prop (?ds ! 2) ''gpu'') 2 = Some 2"
    "resolved_index (own_prop (?ds ! 3) ''gpu'') 3 = Some 7"
    by (simp_all add: resolved_index_def truthy_num_def is_integer_def decimal_text_def
        is_digit_def digit_val_def digits_value_def)
  have ok: "list_all (\<lambda>(k, d). resolved_index (own_prop d ''gpu'') k \<noteq> None) (enumerate 0 ?ds)"
    by (simp add: enumerate_eq_zip upt_rec resolved_index_def truthy_num_def is_integer_def
        decimal_text_def is_digit_def digit_val_def digits_value_def)
  from amd_index_resolution [OF s m ps pm n ok]
  obtain gs where gs: "amd_gpus (Arr ?ds) (Arr []) = Inr gs" "length gs = 4"
    and idx: "\<forall>k<4. \<exists>z. resolved_index (own_prop (?ds ! k) ''gpu'') k = Some z
           \<and> index (gs ! k) = Fin (of_int z)"
    by auto
  from idx [rule_format, of 0] r(1) have "index (gs ! 0) = Fin 0" by simp
  moreover from idx [rule_format, of 1] r(2) have "index (gs ! 1) = Fin 1" by simp
  moreover from idx [rule_format, of 2] r(3) have "index (gs ! 2) = Fin 2" by simp
  moreover from idx [rule_format, of 3] r(4) have "index (gs ! 3) = Fin 7" by simp
  ultimately show ?thesis using gs by blast
qed

text \<open>
  C5.  The specification states that a numeric field of an NVIDIA line that does not parse
  becomes 0.  On the line below the temperature is \<^verbatim>\<open>N/A\<close> and the fan speed \<^verbatim>\<open>[N/A]\<close>:
  the record is kept and its other fields are unchanged, but the temperature is \<^verbatim>\<open>NaN\<close>;
  only the fan speed, the one field written with \<^verbatim>\<open>|| 0\<close>, is 0.
\<close>

theorem unparsed_temperature_is_NaN:
  "getGpuStats (nvidia_host (Inr
      ''0, RTX 4090, 535.1, N/A, 12, 3, 24576, 20000, 4576, 120.5, 450.0, 2500, 10000, [N/A]'')) False =
     Inr [\<lparr> index = Fin 0, name = Str ''RTX 4090'', driverVersion = Str ''535.1'',
            temperature = NaN, utilization_gpu = Fin 12, utilization_memory = Fin 3,
            memory_total = Fin 24576, memory_free = Fin 20000, memory_used = Fin 4576,
            power_draw = Fin (241 / 2), power_limit = Fin 450,
            clocks_graphics = Fin 2500, clocks_memory = Fin 10000,
            fan_speed = Fin 0 \<rparr>]"
  by (simp add: getGpuStats_def nvidia_host_query parse_gpu_lines_def trim_def is_ws_def
      split_str.simps gpu_of_line_def field_def parseInt_Str parseFloat_Str num_or_def
      truthy_num_def parse_defs)

text \<open>
  C6.  In a record of the AMD adapter whose total and used memory are finite and not
  negative, the memory utilisation is \<open>used / total * 100\<close> when the total is positive and
  0 when the total is 0, so nothing is divided by zero.  (\<open>js_number\<close> is the quotient as a
  double: the exact value, or the infinity beyond the largest double.)
\<close>

theorem memory_utilization_derived:
  assumes "amd_gpu metricGpus d idx = Inr g"
    and "memory_total g = Fin tot" and "memory_used g = Fin usd"
    and "0 \<le> tot" and "0 \<le> usd"
  shows "utilization_memory g = (if 0 < tot then js_number (usd / tot * 100) else Fin 0)"
proof -
  have u: "utilization_memory g =
     (if num_gt (Fin tot) (Fin 0)
      then num_mul (num_div (Fin usd) (Fin tot)) (Fin 100) else Fin 0)"
    using amd_gpu_mem_util [OF assms(1)] by (simp only: assms(2,3))
  show ?thesis
  proof (cases "0 < tot")
    case True
    from mem_util_value [OF assms(5) True] u True show ?thesis
      by (simp only: num_gt.simps if_True)
  next
    case False
    with u show ?thesis by simp
  qed
qed

theorem memory_utilization_derived_witness:
  "(\<exists>g. amd_gpu
           [Obj [(''mem_usage'', Obj [(''total_vram'', Obj [(''value'', Num (Fin 24576))]),
                                      (''used_vram'', Obj [(''value'', Num (Fin 6144))])])]]
           (Obj [(''gpu'', Str ''0'')]) 0 = Inr g
        \<and> memory_total g = Fin 24576 \<and> memory_used g = Fin 6144 \<and> utilization_memory g = Fin 25)
   \<and> (\<exists>g. amd_gpu [Obj []] (Obj [(''gpu'', Str ''0'')]) 0 = Inr g
        \<and> memory_total g = Fin 0 \<and> memory_used g = Fin 0 \<and> utilization_memory g = Fin 0)"
proof -
  let ?m = "Obj [(''mem_usage'', Obj [(''total_vram'', Obj [(''value'', Num (Fin 24576))]),
                                      (''used_vram'', Obj [(''value'', Num (Fin 6144))])])]"
  let ?d = "Obj [(''gpu'', Str ''0'')]"
  have p: "amdParseFloat (Num (Fin 24576)) = Inr (Fin 24576)" "amdParseFloat (Num (Fin 6144)) = Inr (Fin 6144)"
    by (simp_all add: amdParseFloat_def parseFloat_def js_or_simps number_to_string_numeral digits_eval
        parse_defs)
  have "\<exists>g. amd_gpu [?m] ?d 0 = Inr g \<and> memory_total g = Fin 24576 \<and> memory_used g = Fin 6144"
    by (simp add: amd_gpu_def js_eval array_at_def is_integer_def p amdParseInt_Str_digit0
        amdParseInt_zero amdParseFloat_zero)
  then obtain g where g: "amd_gpu [?m] ?d 0 = Inr g" "memory_total g = Fin 24576" "memory_used g = Fin 6144"
    by blast
  from memory_utilization_derived [OF g] have "utilization_memory g = Fin 25"
    by (simp add: js_number_def max_double_bound_def)
  with g have first: "\<exists>g. amd_gpu [?m] ?d 0 = Inr g
        \<and> memory_total g = Fin 24576 \<and> memory_used g = Fin 6144 \<and> utilization_memory g = Fin 25"
    by blast
  have "\<exists>h. amd_gpu [Obj []] ?d 0 = Inr h \<and> memory_total h = Fin 0 \<and> memory_used h = Fin 0"
    by (simp add: amd_gpu_def js_eval array_at_def is_integer_def amdParseInt_Str_digit0
        amdParseInt_zero amdParseFloat_zero)
  then obtain h where h: "amd_gpu [Obj []] ?d 0 = Inr h" "memory_total h = Fin 0" "memory_used h = Fin 0"
    by blast
  from memory_utilization_derived [OF h] have "utilization_memory h = Fin 0"
    by simp
  with h have "\<exists>g. amd_gpu [Obj []] ?d 0 = Inr g
        \<and> memory_total g = Fin 0 \<and> memory_used g = Fin 0 \<and> utilization_memory g = Fin 0"
    by blast
  with first show ?thesis by blast
qed

text \<open>
  C7.  The specification states that a failing metric query leaves the static records,
  with zeroed telemetry.  The route runs both queries as one command line joined by
  \<^verbatim>\<open>&&\<close>: when the metric query fails the command line fails, the adapter raises, and the
  request ends in the failure envelope with no device.
\<close>

theorem metric_failure_fails_request:
  \<open>getAMDGpuStats (amd_host (Inr ''[{}]\<newline>'') (Inl ''rocm-smi: no device\<newline>'')) False
     = Inl (ExecError (''Command failed: rocm-smi static --json && echo ";" && rocm-smi metric --json''
                        @ ''\<newline>rocm-smi: no device\<newline>''))
   \<and> GET (amd_host (Inr ''[{}]\<newline>'') (Inl ''rocm-smi: no device\<newline>''))
     = \<lparr> hasNvidiaSmi = False, hasAmdSmi = False, gpus = [], cpu = None,
         error_message = Some (''Failed to fetch GPU stats: ''
           @ ''Command failed: rocm-smi static --json && echo ";" && rocm-smi metric --json''
           @ ''\<newline>rocm-smi: no device\<newline>''),
         status = 500 \<rparr>\<close>
proof -
  let ?w = "amd_host (Inr ''[{}]\<newline>'') (Inl ''rocm-smi: no device\<newline>'')"
  have a: "getAMDGpuStats ?w isWindows = Inl (exec_error amd_query ''rocm-smi: no device\<newline>'')"
    for isWindows
    by (simp add: getAMDGpuStats_def amd_host_query)
  have "GET ?w = failure_envelope (exec_error amd_query ''rocm-smi: no device\<newline>'')"
    using amd_host_check [of "Inr ''[{}]\<newline>''" "Inl ''rocm-smi: no device\<newline>''"]
    by (simp add: GET_def a)
  with a show ?thesis
    by (simp add: failure_envelope_def exec_error_def amd_query_text)
qed

text \<open>
  C7, as amended.  When the static query succeeds and the metric query fails, the adapter
  fails as a whole with the rejection of the command line; on a host where the AMD path is
  the one taken, the request returns the failure envelope: both flags false, no device, and
  the error message.
\<close>

theorem metric_failure_propagates:
  assumes "run w ''rocm-smi static --json'' = Inr out" and "run w ''rocm-smi metric --json'' = Inl err"
  shows "getAMDGpuStats w isWindows = Inl (exec_error amd_query err)
     \<and> (\<not> checkNvidiaSmi w (platform w = ''win32'') \<and> checkAmdSmi w (platform w = ''win32'')
          \<longrightarrow> GET w = failure_envelope (exec_error amd_query err))"
proof -
  have a: "getAMDGpuStats w b = Inl (exec_error amd_query err)" for b
    by (simp add: getAMDGpuStats_def amd_query_metric_fails [OF assms])
  then show ?thesis by (simp add: GET_def)
qed

theorem metric_failure_propagates_witness:
  "getAMDGpuStats (amd_host (Inr ''[{}]\<newline>'') (Inl ''rocm-smi: no device\<newline>'')) False
     = Inl (exec_error amd_query ''rocm-smi: no device\<newline>'')
   \<and> GET (amd_host (Inr ''[{}]\<newline>'') (Inl ''rocm-smi: no device\<newline>''))
     = failure_envelope (exec_error amd_query ''rocm-smi: no device\<newline>'')"
proof -
  let ?w = "amd_host (Inr ''[{}]\<newline>'') (Inl ''rocm-smi: no device\<newline>'')"
  have s: "run ?w ''rocm-smi static --json'' = Inr ''[{}]\<newline>''"
    and m: "run ?w ''rocm-smi metric --json'' = Inl ''rocm-smi: no device\<newline>''"
    by (simp_all add: amd_host_def)
  from metric_failure_propagates [OF s m, of False]
    amd_host_check [of "Inr ''[{}]\<newline>''" "Inl ''rocm-smi: no device\<newline>''"]
  show ?thesis by simp
qed

text \<open>
  C8.  The request always returns an envelope, and never one with both flags true.  When
  the adapter of the detected vendor fails, the envelope has both flags false, no device,
  the error message and status 500.  When neither tool is found the envelope has both flags
  false, no device, no error, and the field \<^verbatim>\<open>cpu\<close> set to what the CPU query returned: the
  summary when \<^verbatim>\<open>systeminformation\<close> answers, \<^verbatim>\<open>null\<close> when it fails.
\<close>

theorem GET_envelope:
  "\<not> (hasNvidiaSmi (GET w) \<and> hasAmdSmi (GET w))
   \<and> (\<forall>e. checkNvidiaSmi w (platform w = ''win32'')
            \<and> getGpuStats w (platform w = ''win32'') = Inl e
          \<longrightarrow> GET w = \<lparr> hasNvidiaSmi = False, hasAmdSmi = False, gpus = [], cpu = None,
                        error_message = Some (''Failed to fetch GPU stats: '' @ message e),
                        status = 500 \<rparr>)
   \<and> (\<forall>e. \<not> checkNvidiaSmi w (platform w = ''win32'') \<and> checkAmdSmi w (platform w = ''win32'')
            \<and> getAMDGpuStats w (platform w = ''win32'') = Inl e
          \<longrightarrow> GET w = \<lparr> hasNvidiaSmi = False, hasAmdSmi = False, gpus = [], cpu = None,
                        error_message = Some (''Failed to fetch GPU stats: '' @ message e),
                        status = 500 \<rparr>)
   \<and> (\<not> checkNvidiaSmi w (platform w = ''win32'') \<and> \<not> checkAmdSmi w (platform w = ''win32'')
          \<longrightarrow> GET w = \<lparr> hasNvidiaSmi = False, hasAmdSmi = False, gpus = [],
                        cpu = Some (getCpuStats w), error_message = None, status = 200 \<rparr>)
   \<and> (\<forall>c. cpu_info w = Inr c
          \<longrightarrow> getCpuStats w = Some \<lparr> cpu_name = manufacturer c @ '' '' @ brand c,
                                     cpu_cores = cores c, cpu_speed = speed c,
                                     cpu_temperature = js_or (temp c) (Num (Fin 0)) \<rparr>)"
proof -
  have flags: "\<not> (hasNvidiaSmi (GET w) \<and> hasAmdSmi (GET w))"
    by (simp add: GET_def Let_def failure_envelope_def ebind_def split: sum.splits)
  have nv: "GET w = failure_envelope e"
    if "checkNvidiaSmi w (platform w = ''win32'')" "getGpuStats w (platform w = ''win32'') = Inl e" for e
    using that by (simp add: GET_def)
  have amd: "GET w = failure_envelope e"
    if "\<not> checkNvidiaSmi w (platform w = ''win32'')" "checkAmdSmi w (platform w = ''win32'')"
      "getAMDGpuStats w (platform w = ''win32'') = Inl e" for e
    using that by (simp add: GET_def)
  have none: "GET w = \<lparr> hasNvidiaSmi = False, hasAmdSmi = False, gpus = [],
                        cpu = Some (getCpuStats w), error_message = None, status = 200 \<rparr>"
    if "\<not> checkNvidiaSmi w (platform w = ''win32'')" "\<not> checkAmdSmi w (platform w = ''win32'')"
    using that by (simp add: GET_def)
  have cpu: "getCpuStats w = Some \<lparr> cpu_name = manufacturer c @ '' '' @ brand c,
                                     cpu_cores = cores c, cpu_speed = speed c,
                                     cpu_temperature = js_or (temp c) (Num (Fin 0)) \<rparr>"
    if "cpu_info w = Inr c" for c
    using that by (simp add: getCpuStats_def)
  from flags nv amd none cpu show ?thesis
    by (simp add: failure_envelope_def)
qed

theorem GET_envelope_witness:
  "GET (nvidia_host (Inl ''No devices were found\<newline>''))
     = \<lparr> hasNvidiaSmi = False, hasAmdSmi = False, gpus = [], cpu = None,
         error_message = Some (''Failed to fetch GPU stats: ''
           @ message (exec_error nvidia_query ''No devices were found\<newline>'')),
         status = 500 \<rparr>
   \<and> GET (amd_host (Inl ''rocm-smi: no device\<newline>'') (Inr ''[]\<newline>''))
     = \<lparr> hasNvidiaSmi = False, hasAmdSmi = False, gpus = [], cpu = None,
         error_message = Some (''Failed to fetch GPU stats: ''
           @ message (exec_error amd_query ''rocm-smi: no device\<newline>'')),
         status = 500 \<rparr>
   \<and> GET bare_host
     = \<lparr> hasNvidiaSmi = False, hasAmdSmi = False, gpus = [],
         cpu = Some (Some \<lparr> cpu_name = ''AMD Ryzen 9'', cpu_cores = Fin 16, cpu_speed = Fin (17 / 5),
                             cpu_temperature = Num (Fin 0) \<rparr>),
         error_message = None, status = 200 \<rparr>"
proof -
  let ?n = "nvidia_host (Inl ''No devices were found\<newline>'')"
  let ?a = "amd_host (Inl ''rocm-smi: no device\<newline>'') (Inr ''[]\<newline>'')"
  have n: "getGpuStats ?n b = Inl (exec_error nvidia_query ''No devices were found\<newline>'')" for b
    by (simp add: getGpuStats_def nvidia_host_query)
  have a: "getAMDGpuStats ?a b = Inl (exec_error amd_query ''rocm-smi: no device\<newline>'')" for b
    by (simp add: getAMDGpuStats_def amd_host_query)
  have c: "cpu_info bare_host = Inr ryzen"
    by (simp add: bare_host_def)
  from GET_envelope [of ?n] nvidia_host_check [of "Inl ''No devices were found\<newline>''"] n
  have 1: "GET ?n = \<lparr> hasNvidiaSmi = False, hasAmdSmi = False, gpus = [], cpu = None,
         error_message = Some (''Failed to fetch GPU stats: ''
           @ message (exec_error nvidia_query ''No devices were found\<newline>'')),
         status = 500 \<rparr>"
    by simp
  from GET_envelope [of ?a]
    amd_host_check [of "Inl ''rocm-smi: no device\<newline>''" "Inr ''[]\<newline>''"] a
  have 2: "GET ?a = \<lparr> hasNvidiaSmi = False, hasAmdSmi = False, gpus = [], cpu = None,
         error_message = Some (''Failed to fetch GPU stats: ''
           @ message (exec_error amd_query ''rocm-smi: no device\<newline>'')),
         status = 500 \<rparr>"
    by simp
  from GET_envelope [of bare_host] bare_host_check c
  have 3: "GET bare_host = \<lparr> hasNvidiaSmi = False, hasAmdSmi = False, gpus = [],
         cpu = Some (Some \<lparr> cpu_name = ''AMD Ryzen 9'', cpu_cores = Fin 16, cpu_speed = Fin (17 / 5),
                             cpu_temperature = Num (Fin 0) \<rparr>),
         error_message = None, status = 200 \<rparr>"
    by (simp add: ryzen_def js_or_simps)
  from 1 2 3 show ?thesis by blast
qed



text \<open>
  C10.  When the output of the NVIDIA tool is empty or consists of white space only, the
  adapter returns exactly one record, not the empty list: trimming leaves the empty string,
  which splits into one empty line.  Every numeric field of that record is the parse of an
  empty or missing field, \<^verbatim>\<open>NaN\<close>, except the fan speed, which falls back to 0.
\<close>

theorem blank_output_one_record:
  assumes "execAsync w nvidia_query = Inr stdout" and "list_all is_ws stdout"
  shows "getGpuStats w isWindows =
     Inr [\<lparr> index = NaN, name = Undefined, driverVersion = Undefined,
            temperature = NaN, utilization_gpu = NaN, utilization_memory = NaN,
            memory_total = NaN, memory_free = NaN, memory_used = NaN,
            power_draw = NaN, power_limit = NaN, clocks_graphics = NaN, clocks_memory = NaN,
            fan_speed = Fin 0 \<rparr>]"
  using assms by (simp add: getGpuStats_def parse_blank)

theorem blank_output_one_record_witness:
  "getGpuStats (nvidia_host (Inr '' \<newline>'')) False =
     Inr [\<lparr> index = NaN, name = Undefined, driverVersion = Undefined,
            temperature = NaN, utilization_gpu = NaN, utilization_memory = NaN,
            memory_total = NaN, memory_free = NaN, memory_used = NaN,
            power_draw = NaN, power_limit = NaN, clocks_graphics = NaN, clocks_memory = NaN,
            fan_speed = Fin 0 \<rparr>]"
proof -
  have out: "execAsync (nvidia_host (Inr '' \<newline>'')) nvidia_query = Inr '' \<newline>''"
    by (simp add: nvidia_host_query)
  have ws: "list_all is_ws '' \<newline>''"
    by (simp add: is_ws_def)
  show ?thesis
    by (rule blank_output_one_record [OF out ws])
qed

section \<open>Further properties\<close>

text \<open>
  The two top-level shapes of the AMD data normalise alike: an object holding the array
  under \<^verbatim>\<open>gpu_data\<close> gives the same records as the bare array, for the static and for the
  metric data.  A string, a number or a boolean at the top level normalises to the empty
  sequence, and so does an object whose \<^verbatim>\<open>gpu_data\<close> is missing or no array.
\<close>

theorem shapes_normalise_alike:
  "gpu_list (Obj [(''gpu_data'', Arr xs)]) = gpu_list (Arr xs)
   \<and> amd_gpus (Obj [(''gpu_data'', Arr xs)]) mdata = amd_gpus (Arr xs) mdata
   \<and> amd_gpus sdata (Obj [(''gpu_data'', Arr ys)]) = amd_gpus sdata (Arr ys)
   \<and> gpu_list (Str s) = Inr [] \<and> gpu_list (Num n) = Inr [] \<and> gpu_list (Bool b) = Inr []
   \<and> gpu_list (Obj kvs) = Inr (elements (own_prop (Obj kvs) ''gpu_data''))"
proof -
  have w: "gpu_list (Obj [(''gpu_data'', Arr zs)]) = gpu_list (Arr zs)" for zs
    by (simp add: gpu_list_simps)
  have o: "gpu_list (Obj kvs) = Inr (elements (own_prop (Obj kvs) ''gpu_data''))"
    by (simp add: gpu_list_def get_simps isArray_def elements_def split: jsval.splits)
  from w o show ?thesis
    by (simp add: amd_gpus_def gpu_list_simps)
qed


text \<open>
  The guarded parse utilities of the route's other revision return a finite number on
  every value that has no member named \<^verbatim>\<open>toString\<close> inside.
\<close>

theorem guarded_parse_finite:
  assumes "plain v"
  shows "(\<exists>n. amdParseInt_guarded v = Inr n \<and> isFinite n)
     \<and> (\<exists>n. amdParseFloat_guarded v = Inr n \<and> isFinite n)"
proof -
  have "plain (js_nc v (Str ''0''))" using assms by (simp add: js_nc_def)
  then obtain s where "to_string (js_nc v (Str ''0'')) = Inr s"
    using to_string_plain by blast
  then show ?thesis
    by (simp add: amdParseInt_guarded_def amdParseFloat_guarded_def Let_def isFinite_def)
qed

theorem guarded_parse_finite_witness:
  "(\<exists>n. amdParseInt_guarded (Str ''N/A'') = Inr n \<and> isFinite n)
   \<and> (\<exists>n. amdParseFloat_guarded (Str ''N/A'') = Inr n \<and> isFinite n)"
proof -
  have "plain (Str ''N/A'')" by simp
  then show ?thesis by (rule guarded_parse_finite)
qed


text \<open>
  The parse utilities of the route return 0 on a missing key, on \<^verbatim>\<open>null\<close> and on the empty
  string.
\<close>

theorem amdParse_missing_is_zero:
  "amdParseInt Undefined = Inr (Fin 0) \<and> amdParseInt Null = Inr (Fin 0)
   \<and> amdParseInt (Str '''') = Inr (Fin 0)
   \<and> amdParseFloat Undefined = Inr (Fin 0) \<and> amdParseFloat Null = Inr (Fin 0)
   \<and> amdParseFloat (Str '''') = Inr (Fin 0)"
  using amdParseInt_zero amdParseFloat_zero
  by (simp add: amdParseInt_def amdParseFloat_def js_or_simps)

text \<open>
  Where no static entry is \<^verbatim>\<open>null\<close> or \<^verbatim>\<open>undefined\<close> and no object of the static or the
  metric sequence has a member named \<^verbatim>\<open>toString\<close>, the join does not raise, whatever the
  two lengths and in both top-level shapes: it returns one record for each static entry, and
  every record whose index is at or beyond the end of the metric sequence has 0 in each
  field it takes from the metric record.  In particular the static data
  \<^verbatim>\<open>{gpu_data:[{gpu:"0", asic:{market_name:"MI300"}}]}\<close> with the metric data \<^verbatim>\<open>[]\<close>
  gives one record named \<^verbatim>\<open>MI300\<close> whose telemetry is all 0.
\<close>

theorem short_metrics_zeroed:
  assumes "gpu_list sdata = Inr statics" and "gpu_list mdata = Inr metrics"
    and "list_all (\<lambda>d. \<not> nullish d \<and> plain d) statics" and "list_all plain metrics"
  shows "(\<exists>gs. amd_gpus sdata mdata = Inr gs \<and> length gs = length statics
            \<and> (\<forall>k<length statics.
                  num_ge (index (gs ! k)) (Fin (of_nat (length metrics))) \<longrightarrow> telemetry_zeroed (gs ! k)))
     \<and> amd_gpus
           (Obj [(''gpu_data'',
                  Arr [Obj [(''gpu'', Str ''0''), (''asic'', Obj [(''market_name'', Str ''MI300'')])]])])
           (Arr [])
         = Inr [\<lparr> index = Fin 0, name = Str ''MI300'', driverVersion = Str ''N/A'',
                  temperature = Fin 0, utilization_gpu = Fin 0, utilization_memory = Fin 0,
                  memory_total = Fin 0, memory_free = Fin 0, memory_used = Fin 0,
                  power_draw = Fin 0, power_limit = Fin 0,
                  clocks_graphics = Fin 0, clocks_memory = Fin 0, fan_speed = Fin 0 \<rparr>]"
proof -
  from amd_gpus_result [OF assms] obtain gs where gs: "amd_gpus sdata mdata = Inr gs"
    and len: "length gs = length statics"
    and el: "\<forall>k<length statics. amd_gpu metrics (statics ! k) k = Inr (gs ! k)"
    by blast
  have "telemetry_zeroed (gs ! k)"
    if k: "k < length statics" and ge: "num_ge (index (gs ! k)) (Fin (of_nat (length metrics)))" for k
  proof -
    from k assms(3) have d: "\<not> nullish (statics ! k)" "plain (statics ! k)"
      by (simp_all add: list_all_length)
    from amd_gpu_result [OF d assms(4), of k] el k
    have "array_at metrics (index (gs ! k)) = Undefined \<longrightarrow> telemetry_zeroed (gs ! k)"
      by auto
    with array_at_out_of_range [OF ge] show ?thesis by simp
  qed
  with gs len have general: "\<exists>gs. amd_gpus sdata mdata = Inr gs \<and> length gs = length statics
            \<and> (\<forall>k<length statics.
                  num_ge (index (gs ! k)) (Fin (of_nat (length metrics))) \<longrightarrow> telemetry_zeroed (gs ! k))"
    by blast
  have example: "amd_gpus
           (Obj [(''gpu_data'',
                  Arr [Obj [(''gpu'', Str ''0''), (''asic'', Obj [(''market_name'', Str ''MI300'')])]])])
           (Arr [])
         = Inr [\<lparr> index = Fin 0, name = Str ''MI300'', driverVersion = Str ''N/A'',
                  temperature = Fin 0, utilization_gpu = Fin 0, utilization_memory = Fin 0,
                  memory_total = Fin 0, memory_free = Fin 0, memory_used = Fin 0,
                  power_draw = Fin 0, power_limit = Fin 0,
                  clocks_graphics = Fin 0, clocks_memory = Fin 0, fan_speed = Fin 0 \<rparr>]"
    by (simp add: amd_gpus_def enumerate_eq_zip amd_gpu_def js_eval array_at_Nil
        amdParseInt_Str_digit0 amdParseInt_zero amdParseFloat_zero)
  from general example show ?thesis by blast
qed

theorem short_metrics_zeroed_witness:
  "\<exists>gs. amd_gpus (Arr [Obj [(''gpu'', Str ''0'')], Obj [(''gpu'', Str ''1'')]])
            (Obj [(''gpu_data'', Arr [Obj [(''temperature'', Obj [(''hotspot'', Obj [(''value'', Num (Fin 55))])])]])])
          = Inr gs
        \<and> length gs = 2 \<and> temperature (gs ! 0) = Fin 55 \<and> telemetry_zeroed (gs ! 1)"
proof -
  let ?S = "Arr [Obj [(''gpu'', Str ''0'')], Obj [(''gpu'', Str ''1'')]]"
  let ?m = "Obj [(''temperature'', Obj [(''hotspot'', Obj [(''value'', Num (Fin 55))])])]"
  let ?M = "Obj [(''gpu_data'', Arr [?m])]"
  have s: "gpu_list ?S = Inr [Obj [(''gpu'', Str ''0'')], Obj [(''gpu'', Str ''1'')]]"
    by (simp add: gpu_list_simps)
  have m: "gpu_list ?M = Inr [?m]"
    by (simp add: gpu_list_simps)
  have ps: "list_all (\<lambda>d. \<not> nullish d \<and> plain d) [Obj [(''gpu'', Str ''0'')], Obj [(''gpu'', Str ''1'')]]"
    by (simp add: nullish_def)
  have pm: "list_all plain [?m]"
    by simp
  from short_metrics_zeroed [OF s m ps pm]
  obtain gs where gs: "amd_gpus ?S ?M = Inr gs" and len: "length gs = 2"
    and z: "\<forall>k<2. num_ge (index (gs ! k)) (Fin 1) \<longrightarrow> telemetry_zeroed (gs ! k)"
    by auto
  have i0: "amdParseInt (Str ''0'') = Inr (Fin 0)" and i1: "amdParseInt (Str ''1'') = Inr (Fin 1)"
    and t: "amdParseInt (Num (Fin 55)) = Inr (Fin 55)"
    by (simp_all add: amdParseInt_def parseInt_def js_or_simps number_to_string_numeral digits_eval
        parse_defs)
  have "\<exists>g0 g1. amd_gpus ?S ?M = Inr [g0, g1] \<and> temperature g0 = Fin 55 \<and> index g1 = Fin 1"
    by (simp add: amd_gpus_def enumerate_eq_zip amd_gpu_def js_eval array_at_def is_integer_def
        i0 i1 t amdParseInt_zero amdParseFloat_zero gpu_list_simps)
  with gs obtain g0 g1 where g: "gs = [g0, g1]" "temperature g0 = Fin 55" "index g1 = Fin 1"
    by auto
  from z have "num_ge (index (gs ! 1)) (Fin 1) \<longrightarrow> telemetry_zeroed (gs ! 1)"
    by simp
  with g have "telemetry_zeroed (gs ! 1)" by simp
  with gs len g show ?thesis by simp
qed

end
